theory Spec2Isabelle
  imports Complex_Main "HOL-Library.Word" "HOL-Library.AList"
begin

section \<open>The block-sealing worker (core/worker.go): data model\<close>

text \<open>
  The development follows \<^verbatim>\<open>core/worker.go\<close>. Go values are modelled by value; a pointer that may
  be nil is an \<open>option\<close>; a Go map that the code ranges over is an association list (the list order
  is the order in which \<^verbatim>\<open>range\<close> visits the entries, \<open>map_of\<close> is the lookup); a result of
  \<open>None\<close> of a function of the model means that the Go function does not return normally (a
  run-time panic such as a nil dereference or an integer division by zero, or a loop that never
  ends). Locks are not modelled: every function is read as running alone.
\<close>

type_synonym hash = nat
type_synonym address = nat
type_synonym u64 = "64 word"
type_synonym log = nat
type_synonym GasPool = "64 word"

text \<open>\<^verbatim>\<open>common.NodeLocation.Context()\<close>: the three levels of the hierarchy.\<close>

datatype ctx = PRIME_CTX | REGION_CTX | ZONE_CTX

text \<open>
  Go errors. An error value is the chain that \<^verbatim>\<open>errors.Is\<close> walks (outermost first); the
  sentinels the inclusion loop tests for are constructors of their own, \<open>ErrorNew\<close> is any
  other error made by \<^verbatim>\<open>errors.New\<close> or \<^verbatim>\<open>fmt.Errorf\<close>. The nil error is \<open>None\<close>.
\<close>

datatype err = ErrGasLimitReached | ErrNonceTooLow | ErrNonceTooHigh | ErrTxTypeNotSupported
  | ErrorNew string

type_synonym error = "err list"

definition errors_Is :: "error option \<Rightarrow> err option \<Rightarrow> bool" where
  "errors_Is e target =
     (case e of
        None \<Rightarrow> target = None
      | Some chain \<Rightarrow> (case target of None \<Rightarrow> False | Some t \<Rightarrow> t \<in> set chain))"

text \<open>
  \<^verbatim>\<open>types.Header\<close>, read through its accessors. \<open>Number\<close> is the \<^verbatim>\<open>big.Int\<close> block number;
  \<^verbatim>\<open>NumberU64\<close> keeps its low 64 bits.
\<close>

record Header =
  ParentHash :: hash
  Number :: nat
  GasLimit :: u64
  GasUsed :: u64
  BaseFee :: nat
  UncleHash :: hash
  TxHash :: hash
  EtxHash :: hash
  ManifestHash :: hash
  EtxRollupHash :: hash

text \<open>\<^verbatim>\<open>types.Transaction\<close>: \<open>tx_from\<close> is the address \<^verbatim>\<open>types.Sender(signer, tx)\<close> recovers.\<close>

record Transaction =
  tx_hash :: hash
  tx_from :: address
  tx_nonce :: u64

record Receipt =
  Status :: u64
  Logs :: "log list"
  Etxs :: "Transaction list"

definition ReceiptStatusSuccessful :: u64 where
  "ReceiptStatusSuccessful = 1"

record Body =
  Transactions :: "Transaction list"
  Uncles :: "Header list"
  ExtTransactions :: "Transaction list"
  SubManifest :: "hash list"

record Block =
  blockHeader :: Header
  blockBody :: Body

definition NumberU64 :: "Block \<Rightarrow> u64" where
  "NumberU64 b = of_nat (Number (blockHeader b))"

text \<open>
  Modelled from the spec: \<^verbatim>\<open>state.StateDB\<close> is not part of the file. The spec speaks of a
  journal snapshot taken before a transaction and of reverting to it, of \<^verbatim>\<open>prepare(txHash, tcount)\<close>
  and of readers obtaining a state copy. \<open>world\<close> is the content of the state, \<open>validRevisions\<close>
  the worlds saved by \<open>Snapshot\<close> (a revision id is an index into it), \<open>objId\<close> the identity of
  the Go object, so that a copy can be told from the original.
\<close>

record 'w StateDB =
  objId :: nat
  world :: 'w
  validRevisions :: "'w list"
  thash :: hash
  txIndex :: "64 word"

definition Snapshot :: "'w StateDB \<Rightarrow> nat \<times> 'w StateDB" where
  "Snapshot s = (length (validRevisions s), s\<lparr>validRevisions := validRevisions s @ [world s]\<rparr>)"

definition RevertToSnapshot :: "'w StateDB \<Rightarrow> nat \<Rightarrow> 'w StateDB option" where
  "RevertToSnapshot s revid =
     (if revid < length (validRevisions s)
      then Some (s\<lparr>world := validRevisions s ! revid,
                   validRevisions := take revid (validRevisions s)\<rparr>)
      else None)"

definition Prepare :: "'w StateDB \<Rightarrow> hash \<Rightarrow> 64 word \<Rightarrow> 'w StateDB" where
  "Prepare s th ti = s\<lparr>thash := th, txIndex := ti\<rparr>"

definition Copy :: "nat \<Rightarrow> 'w StateDB \<Rightarrow> 'w StateDB" where
  "Copy fresh s = s\<lparr>objId := fresh\<rparr>"

text \<open>
  The sealing environment. \<open>tcount\<close> and \<open>externalBlockLength\<close> are Go \<^verbatim>\<open>int\<close>s (64 bits, two's
  complement); \<open>gasPool\<close> and \<open>state\<close> are pointers that may be nil; \<open>header\<close> is never nil in an
  environment the worker builds. The signer is folded into \<open>tx_from\<close>.
\<close>

record 'w environment =
  state :: "'w StateDB option"
  ancestors :: "hash set"
  family :: "hash set"
  tcount :: "64 word"
  gasPool :: "GasPool option"
  coinbase :: address
  header :: Header
  txs :: "Transaction list"
  etxs :: "Transaction list"
  subManifest :: "hash list"
  receipts :: "Receipt list"
  uncles :: "(hash \<times> Header) list"
  externalGasUsed :: u64
  externalBlockLength :: "64 word"

record 'f intervalAdjust =
  ratio :: 'f
  inc :: bool

text \<open>
  Modelled from the spec: the pending-block-body table of the key-value store
  (\<^verbatim>\<open>rawdb.ReadPbBodyKeys\<close>, \<^verbatim>\<open>WritePbBodyKeys\<close>, \<^verbatim>\<open>ReadPbCacheBody\<close>, \<^verbatim>\<open>WritePbCacheBody\<close>,
  \<^verbatim>\<open>DeletePbCacheBody\<close> are not part of the file). The spec's persisted layout has two logical
  records: a keys index (a list of body fingerprints) and one body blob per fingerprint. A blob
  reads back as the pointer that was written; reading an absent blob or an absent index gives nil.
\<close>

record pbTable =
  pbBodyKeys :: "hash list option"
  pbBodies :: "hash \<Rightarrow> Body option option"

definition ReadPbBodyKeys :: "pbTable \<Rightarrow> hash list" where
  "ReadPbBodyKeys db = (case pbBodyKeys db of None \<Rightarrow> [] | Some ks \<Rightarrow> ks)"

definition WritePbBodyKeys :: "pbTable \<Rightarrow> hash list \<Rightarrow> pbTable" where
  "WritePbBodyKeys db ks = db\<lparr>pbBodyKeys := Some ks\<rparr>"

definition ReadPbCacheBody :: "pbTable \<Rightarrow> hash \<Rightarrow> Body option" where
  "ReadPbCacheBody db k = (case pbBodies db k of None \<Rightarrow> None | Some b \<Rightarrow> b)"

definition WritePbCacheBody :: "pbTable \<Rightarrow> hash \<Rightarrow> Body option \<Rightarrow> pbTable" where
  "WritePbCacheBody db k b = db\<lparr>pbBodies := (pbBodies db)(k \<mapsto> b)\<rparr>"

definition DeletePbCacheBody :: "pbTable \<Rightarrow> hash \<Rightarrow> pbTable" where
  "DeletePbCacheBody db k = db\<lparr>pbBodies := (pbBodies db)(k := None)\<rparr>"

text \<open>
  The bounded LRU cache of \<^verbatim>\<open>github.com/hashicorp/golang-lru\<close>: \<open>items\<close> from the oldest to
  the newest entry, at most \<open>lruSize\<close> of them. \<open>Add\<close> of a present key replaces the value and
  makes the entry the newest; \<open>Add\<close> of a new key appends and evicts the oldest entry when the
  cache is over its size; \<open>Peek\<close> and \<open>Keys\<close> do not touch the order; \<open>ContainsOrAdd\<close> adds
  only when the key is absent.
\<close>

record lruCache =
  lruSize :: nat
  items :: "(hash \<times> Body option) list"

definition lru_New :: "nat \<Rightarrow> lruCache" where
  "lru_New n = \<lparr>lruSize = n, items = []\<rparr>"

definition lru_Keys :: "lruCache \<Rightarrow> hash list" where
  "lru_Keys cache = map fst (items cache)"

definition lru_Peek :: "lruCache \<Rightarrow> hash \<Rightarrow> Body option option" where
  "lru_Peek cache k = map_of (items cache) k"

definition lru_Add :: "lruCache \<Rightarrow> hash \<Rightarrow> Body option \<Rightarrow> lruCache" where
  "lru_Add cache k v =
     (if k \<in> set (lru_Keys cache)
      then cache\<lparr>items := AList.delete k (items cache) @ [(k, v)]\<rparr>
      else (let its = items cache @ [(k, v)]
            in cache\<lparr>items := (if lruSize cache < length its then tl its else its)\<rparr>))"

definition lru_ContainsOrAdd :: "lruCache \<Rightarrow> hash \<Rightarrow> Body option \<Rightarrow> lruCache" where
  "lru_ContainsOrAdd cache k v = (if k \<in> set (lru_Keys cache) then cache else lru_Add cache k v)"

definition pendingBlockBodyLimit :: nat where
  "pendingBlockBodyLimit = 1024"

definition staleThreshold :: u64 where
  "staleThreshold = 7"

definition TxGas :: u64 where
  "TxGas = 21000"

definition commitInterruptNone :: "32 word" where
  "commitInterruptNone = 0"

definition commitInterruptNewHead :: "32 word" where
  "commitInterruptNewHead = 1"

definition commitInterruptResubmit :: "32 word" where
  "commitInterruptResubmit = 2"

text \<open>
  The worker. The two channels the inclusion loop and its callers write to are the lists of what
  was sent, oldest first (\<open>resubmitAdjustCh\<close>, \<open>pendingLogsFeed\<close>); \<open>running\<close> and \<open>newTxs\<close> are
  the atomic \<^verbatim>\<open>int32\<close> words; \<open>snapshotReceipts\<close> is a slice that is nil before the first update.
\<close>

record ('w, 'f) worker =
  current :: "'w environment option"
  localUncles :: "(hash \<times> Block) list"
  remoteUncles :: "(hash \<times> Block) list"
  resubmitAdjustCh :: "'f intervalAdjust list"
  pendingLogsFeed :: "log list list"
  workerDb :: pbTable
  pendingBlockBody :: lruCache
  snapshotBlock :: "Block option"
  snapshotReceipts :: "Receipt list option"
  snapshotState :: "'w StateDB option"
  running :: "32 word"
  newTxs :: "32 word"

definition isRunning :: "('w, 'f) worker \<Rightarrow> bool" where
  "isRunning w = (running w = 1)"

text \<open>
  The collaborators the worker calls and the file does not define, taken as parameters:
  the header hash, transaction execution, the price-and-nonce iterator (\<open>'it\<close>), block
  construction, the gas-limit rule, the consensus engine, the header chain's collectors, the
  trie hash and the RLP hash, and the \<^verbatim>\<open>float64\<close> operations the resubmit ratio uses (\<open>'f\<close>).

  \<open>ApplyTransaction\<close> reads the coinbase, the header and the transaction; it may change the gas
  pool behind the pointer it is given, the world of the state, and the gas counter behind
  \<^verbatim>\<open>&gasUsed\<close>, whether it fails or not. It returns the error or the receipt, the new content of the
  gas pool, the new world and the new value of the gas counter. Its own journal snapshots are
  taken to be balanced: it leaves \<open>validRevisions\<close> as it found it.
\<close>

record ('w, 'it, 'f) collab =
  Hash :: "Header \<Rightarrow> hash"
  ApplyTransaction :: "address \<Rightarrow> GasPool option \<Rightarrow> 'w StateDB \<Rightarrow> Header \<Rightarrow> Transaction \<Rightarrow> u64
                         \<Rightarrow> (error + Receipt) \<times> GasPool \<times> 'w \<times> u64"
  Peek :: "'it \<Rightarrow> Transaction option"
  Shift :: "'it \<Rightarrow> address \<Rightarrow> bool \<Rightarrow> 'it"
  Pop :: "'it \<Rightarrow> 'it"
  NewTransactionsByPriceAndNonce :: "(address \<times> Transaction list) list \<Rightarrow> nat \<Rightarrow> bool \<Rightarrow> 'it"
  NewBlock :: "Header \<Rightarrow> Transaction list \<Rightarrow> Header list \<Rightarrow> Transaction list \<Rightarrow> hash list
                 \<Rightarrow> Receipt list \<Rightarrow> Block"
  CalcGasLimit :: "u64 \<Rightarrow> u64 \<Rightarrow> u64"
  FinalizeAndAssemble :: "Header \<Rightarrow> 'w StateDB option \<Rightarrow> Transaction list \<Rightarrow> Header list
                 \<Rightarrow> Transaction list \<Rightarrow> hash list \<Rightarrow> Receipt list \<Rightarrow> error + Block"
  IsDomCoincident :: "Header \<Rightarrow> bool"
  CollectBlockManifest :: "Header \<Rightarrow> error + hash list"
  CollectEtxRollup :: "Block \<Rightarrow> error + Transaction list"
  DeriveShaManifest :: "hash list \<Rightarrow> hash"
  DeriveShaTxs :: "Transaction list \<Rightarrow> hash"
  RlpHash :: "hash list \<Rightarrow> hash"
  EmptyBodyHash :: hash
  float64 :: "u64 \<Rightarrow> 'f"
  fdiv :: "'f \<Rightarrow> 'f \<Rightarrow> 'f"
  fless :: "'f \<Rightarrow> 'f \<Rightarrow> bool"
  ftenth :: 'f

section \<open>Uncles\<close>

text \<open>\<^verbatim>\<open>len(m)\<close> of a Go map: the number of its keys.\<close>

definition maplen :: "('k \<times> 'v) list \<Rightarrow> nat" where
  "maplen m = length (remdups (map fst m))"

text \<open>
  \<^verbatim>\<open>commitUncle\<close> (lines 609-627) mutates the environment and returns an error or nil: the model
  returns the environment after the call and the error.
\<close>

definition commitUncle ::
  "('w, 'it, 'f) collab \<Rightarrow> 'w environment \<Rightarrow> Header \<Rightarrow> 'w environment \<times> error option" where
  "commitUncle c env uncle =
     (let hash = Hash c uncle in
      if map_of (uncles env) hash \<noteq> None then (env, Some [ErrorNew ''uncle not unique''])
      else if ParentHash (header env) = ParentHash uncle
        then (env, Some [ErrorNew ''uncle is sibling''])
      else if ParentHash uncle \<notin> ancestors env
        then (env, Some [ErrorNew ''uncle's parent unknown''])
      else if hash \<in> family env then (env, Some [ErrorNew ''uncle already included''])
      else (env\<lparr>uncles := AList.update hash uncle (uncles env)\<rparr>, None))"

text \<open>
  The closure \<^verbatim>\<open>commitUncles\<close> of \<^verbatim>\<open>prepareWork\<close> (lines 851-865): it ranges over a pool of
  candidate blocks and stops as soon as the environment holds two uncles; a rejected candidate is
  logged and skipped.
\<close>

fun commitUncles ::
  "('w, 'it, 'f) collab \<Rightarrow> 'w environment \<Rightarrow> (hash \<times> Block) list \<Rightarrow> 'w environment" where
  "commitUncles c env [] = env"
| "commitUncles c env ((hash, uncle) # blocks) =
     (if maplen (uncles env) = 2 then env
      else commitUncles c (fst (commitUncle c env (blockHeader uncle))) blocks)"

text \<open>
  The clean-up tick of \<^verbatim>\<open>mainLoop\<close> (lines 505-518): one \<^verbatim>\<open>range\<close> over each pool, deleting the
  entries whose number plus \<open>staleThreshold\<close>, in \<^verbatim>\<open>uint64\<close>, is at most the number of the chain
  head. \<open>sweepStale head es m\<close> visits the entries \<open>es\<close> and deletes from the map \<open>m\<close>.
\<close>

fun sweepStale :: "u64 \<Rightarrow> (hash \<times> Block) list \<Rightarrow> (hash \<times> Block) list \<Rightarrow> (hash \<times> Block) list" where
  "sweepStale head [] m = m"
| "sweepStale head ((hash, uncle) # rest) m =
     sweepStale head rest
       (if NumberU64 uncle + staleThreshold \<le> head then AList.delete hash m else m)"

definition mainLoop_cleanTicker :: "Block \<Rightarrow> ('w, 'f) worker \<Rightarrow> ('w, 'f) worker" where
  "mainLoop_cleanTicker chainHead w =
     (let w1 = w\<lparr>localUncles := sweepStale (NumberU64 chainHead) (localUncles w) (localUncles w)\<rparr>
      in w1\<lparr>remoteUncles := sweepStale (NumberU64 chainHead) (remoteUncles w1) (remoteUncles w1)\<rparr>)"

section \<open>Gas limit\<close>

text \<open>
  \<^verbatim>\<open>adjustGasLimit\<close> (lines 916-921). \<^verbatim>\<open>uint64(env.externalBlockLength+1)\<close> keeps the 64 bits of
  the sum; the \<^verbatim>\<open>uint64\<close> division panics when the divisor is zero.
\<close>

definition adjustGasLimit ::
  "('w, 'it, 'f) collab \<Rightarrow> 'w environment \<Rightarrow> Block \<Rightarrow> 'w environment option" where
  "adjustGasLimit c env parent =
     (let divisor = externalBlockLength env + 1 in
      if divisor = 0 then None
      else (let gasUsed = (GasUsed (blockHeader parent) + externalGasUsed env) div divisor
            in Some (env\<lparr>header := (header env)
                      \<lparr>GasLimit := CalcGasLimit c (GasLimit (blockHeader parent)) gasUsed\<rparr>\<rparr>)))"

section \<open>Transaction inclusion\<close>

text \<open>
  \<^verbatim>\<open>commitTransaction\<close> (lines 650-676). The Go function returns the logs and the error; the
  model adds the environment after the call. A nil \<open>state\<close> is dereferenced by
  \<^verbatim>\<open>env.state.Snapshot()\<close>.
\<close>

definition commitTransaction ::
  "('w, 'it, 'f) collab \<Rightarrow> 'w environment \<Rightarrow> Transaction option
     \<Rightarrow> ('w environment \<times> log list \<times> error option) option" where
  "commitTransaction c env tx =
     (case tx of
        None \<Rightarrow> Some (env, [], Some [ErrorNew ''error finding transaction''])
      | Some t \<Rightarrow>
          (case state env of
             None \<Rightarrow> None
           | Some s \<Rightarrow>
               (let (snap, s1) = Snapshot s;
                    gasUsed = GasUsed (header env);
                    (res, gp', w', gasUsed') =
                       ApplyTransaction c (coinbase env) (gasPool env) s1 (header env) t gasUsed;
                    env1 = env\<lparr>state := Some (s1\<lparr>world := w'\<rparr>),
                               gasPool := map_option (\<lambda>_. gp') (gasPool env)\<rparr>
                in case res of
                     Inl e \<Rightarrow>
                       (case RevertToSnapshot (s1\<lparr>world := w'\<rparr>) snap of
                          None \<Rightarrow> None
                        | Some s2 \<Rightarrow> Some (env1\<lparr>state := Some s2\<rparr>, [], Some e))
                   | Inr receipt \<Rightarrow>
                       Some (env1\<lparr>header := (header env1)\<lparr>GasUsed := gasUsed'\<rparr>,
                                  txs := txs env1 @ [t],
                                  receipts := receipts env1 @ [receipt],
                                  etxs := (if Status receipt = ReceiptStatusSuccessful
                                           then foldl (\<lambda>acc etx. acc @ [etx]) (etxs env1) (Etxs receipt)
                                           else etxs env1)\<rparr>,
                             Logs receipt, None))))"

text \<open>
  The interrupt word is shared with other tasks. \<open>interrupt\<close> is \<open>None\<close> for a nil pointer and
  otherwise gives, for each iteration of the loop, the value the word holds when the loop polls
  it; the three atomic loads of one poll read the same value.
\<close>

definition LoadInt32 :: "(nat \<Rightarrow> 32 word) option \<Rightarrow> nat \<Rightarrow> 32 word" where
  "LoadInt32 interrupt k = (case interrupt of None \<Rightarrow> commitInterruptNone | Some word \<Rightarrow> word k)"

text \<open>Lines 695-698: the ratio of the interval adjustment, in \<^verbatim>\<open>float64\<close>, with \<^verbatim>\<open>uint64\<close> subtraction.\<close>

definition resubmitRatio :: "('w, 'it, 'f) collab \<Rightarrow> u64 \<Rightarrow> u64 \<Rightarrow> 'f" where
  "resubmitRatio c gasLimit gas =
     (let r = fdiv c (float64 c (gasLimit - gas)) (float64 c gasLimit)
      in if fless c r (ftenth c) then ftenth c else r)"

text \<open>
  Lines 716-757 of the loop of \<^verbatim>\<open>commitTransactions\<close>: the attempt on the transaction \<open>tx\<close> the
  iterator peeked, and the switch on its error, case by case in the order of the source.
\<close>

definition loopBody ::
  "('w, 'it, 'f) collab \<Rightarrow> 'w environment \<Rightarrow> 'it \<Rightarrow> log list \<Rightarrow> Transaction
     \<Rightarrow> ('w environment \<times> 'it \<times> log list) option" where
  "loopBody c env txset coalescedLogs tx =
     (let sender = tx_from tx in
      case state env of
        None \<Rightarrow> None
      | Some s \<Rightarrow>
          (case commitTransaction c (env\<lparr>state := Some (Prepare s (tx_hash tx) (tcount env))\<rparr>) (Some tx) of
             None \<Rightarrow> None
           | Some (env1, logs, e) \<Rightarrow>
               if errors_Is e (Some ErrGasLimitReached) then Some (env1, Pop c txset, coalescedLogs)
               else if errors_Is e (Some ErrNonceTooLow)
                 then Some (env1, Shift c txset sender False, coalescedLogs)
               else if errors_Is e (Some ErrNonceTooHigh) then Some (env1, Pop c txset, coalescedLogs)
               else if errors_Is e None
                 then Some (env1\<lparr>tcount := tcount env1 + 1\<rparr>, Shift c txset sender False,
                            coalescedLogs @ logs)
               else if errors_Is e (Some ErrTxTypeNotSupported)
                 then Some (env1, Pop c txset, coalescedLogs)
               else Some (env1, Shift c txset sender False, coalescedLogs)))"

text \<open>
  The loop of \<^verbatim>\<open>commitTransactions\<close> (lines 685-758). It leaves by \<^verbatim>\<open>return\<close> when the interrupt
  word is not \<open>commitInterruptNone\<close> (\<open>Interrupted\<close>, with the value polled), and by \<^verbatim>\<open>break\<close> when
  the gas pool is below \<open>TxGas\<close> (\<open>OutOfGas\<close>) or the iterator is empty (\<open>NoMoreTxs\<close>). \<open>k\<close> counts the
  iterations; \<open>ch\<close> is the resubmit-adjust channel.
\<close>

datatype loopExit = Interrupted "32 word" | OutOfGas | NoMoreTxs

partial_function (option) commitLoop ::
  "('w, 'it, 'f) collab \<Rightarrow> (nat \<Rightarrow> 32 word) option \<Rightarrow> nat \<Rightarrow> 'w environment \<Rightarrow> 'it \<Rightarrow> log list
     \<Rightarrow> 'f intervalAdjust list
     \<Rightarrow> (loopExit \<times> 'w environment \<times> 'it \<times> log list \<times> 'f intervalAdjust list) option" where
  "commitLoop c interrupt k env txset coalescedLogs ch =
     (if interrupt \<noteq> None \<and> LoadInt32 interrupt k \<noteq> commitInterruptNone then
        (if LoadInt32 interrupt k = commitInterruptResubmit then
           (case gasPool env of
              None \<Rightarrow> None
            | Some gp \<Rightarrow>
                Some (Interrupted (LoadInt32 interrupt k), env, txset, coalescedLogs,
                      ch @ [\<lparr>ratio = resubmitRatio c (GasLimit (header env)) gp, inc = True\<rparr>]))
         else Some (Interrupted (LoadInt32 interrupt k), env, txset, coalescedLogs, ch))
      else
        (case gasPool env of
           None \<Rightarrow> None
         | Some gp \<Rightarrow>
             if gp < TxGas then Some (OutOfGas, env, txset, coalescedLogs, ch)
             else
               (case Peek c txset of
                  None \<Rightarrow> Some (NoMoreTxs, env, txset, coalescedLogs, ch)
                | Some tx \<Rightarrow>
                    (case loopBody c env txset coalescedLogs tx of
                       None \<Rightarrow> None
                     | Some (env', txset', logs') \<Rightarrow>
                         commitLoop c interrupt (Suc k) env' txset' logs' ch))))"

text \<open>
  \<^verbatim>\<open>commitTransactions\<close> (lines 678-776): the gas pool is created on first use, the loop runs, and
  after a \<^verbatim>\<open>break\<close> the collected logs are sent to the pending-logs feed when the worker is not
  running. The model returns the Go result with the worker, the environment and the iterator
  after the call.
\<close>

definition commitTransactions ::
  "('w, 'it, 'f) collab \<Rightarrow> ('w, 'f) worker \<Rightarrow> 'w environment \<Rightarrow> 'it \<Rightarrow> (nat \<Rightarrow> 32 word) option
     \<Rightarrow> (bool \<times> ('w, 'f) worker \<times> 'w environment \<times> 'it) option" where
  "commitTransactions c w env txset interrupt =
     (let env0 = (if gasPool env = None then env\<lparr>gasPool := Some (0 + GasLimit (header env))\<rparr>
                  else env)
      in case commitLoop c interrupt 0 env0 txset [] (resubmitAdjustCh w) of
           None \<Rightarrow> None
         | Some (exit, env', txset', coalescedLogs, ch) \<Rightarrow>
             (let w1 = w\<lparr>resubmitAdjustCh := ch\<rparr> in
              case exit of
                Interrupted v \<Rightarrow> Some (v = commitInterruptNewHead, w1, env', txset')
              | _ \<Rightarrow>
                  Some (False,
                        (if \<not> isRunning w1 \<and> 0 < length coalescedLogs
                         then w1\<lparr>pendingLogsFeed := pendingLogsFeed w1 @ [coalescedLogs]\<rparr>
                         else w1),
                        env', txset')))"

section \<open>Snapshot\<close>

definition unclelist :: "'w environment \<Rightarrow> Header list" where
  "unclelist env = map snd (uncles env)"

definition copyReceipts :: "Receipt list \<Rightarrow> Receipt list" where
  "copyReceipts rs = map (\<lambda>l. l) rs"

text \<open>
  \<^verbatim>\<open>updateSnapshot\<close> (lines 630-648). \<open>fresh\<close> is the next unused object identity: a \<open>Copy\<close> of a
  state takes it and the caller goes on with the next one. In the zone context a nil \<open>state\<close> is
  dereferenced by \<^verbatim>\<open>env.state.Copy()\<close>.
\<close>

definition updateSnapshot ::
  "('w, 'it, 'f) collab \<Rightarrow> ctx \<Rightarrow> nat \<Rightarrow> ('w, 'f) worker \<Rightarrow> 'w environment
     \<Rightarrow> (('w, 'f) worker \<times> nat) option" where
  "updateSnapshot c nodeCtx fresh w env =
     (let w1 = w\<lparr>snapshotBlock := Some (NewBlock c (header env) (txs env) (unclelist env)
                     (etxs env) (subManifest env) (receipts env))\<rparr>
      in if nodeCtx = ZONE_CTX then
           (case state env of
              None \<Rightarrow> None
            | Some s \<Rightarrow>
                Some (w1\<lparr>snapshotReceipts := Some (copyReceipts (receipts env)),
                         snapshotState := Some (Copy fresh s)\<rparr>, Suc fresh))
         else Some (w1, fresh))"

text \<open>\<^verbatim>\<open>pending\<close>, \<^verbatim>\<open>pendingBlock\<close> and \<^verbatim>\<open>pendingBlockAndReceipts\<close> (lines 312-336).\<close>

definition pending ::
  "nat \<Rightarrow> ('w, 'f) worker \<Rightarrow> (Block option \<times> 'w StateDB option) \<times> nat" where
  "pending fresh w =
     (case snapshotState w of
        None \<Rightarrow> ((None, None), fresh)
      | Some s \<Rightarrow> ((snapshotBlock w, Some (Copy fresh s)), Suc fresh))"

definition pendingBlock :: "('w, 'f) worker \<Rightarrow> Block option" where
  "pendingBlock w = snapshotBlock w"

definition pendingBlockAndReceipts :: "('w, 'f) worker \<Rightarrow> Block option \<times> Receipt list option" where
  "pendingBlockAndReceipts w = (snapshotBlock w, snapshotReceipts w)"

section \<open>New transactions\<close>

text \<open>Lines 532-536: the transactions of the event, bucketed by sender.\<close>

fun bucketBySender ::
  "Transaction list \<Rightarrow> (address \<times> Transaction list) list \<Rightarrow> (address \<times> Transaction list) list" where
  "bucketBySender [] m = m"
| "bucketBySender (tx # rest) m =
     bucketBySender rest
       (AList.update (tx_from tx)
          ((case map_of m (tx_from tx) of None \<Rightarrow> [] | Some l \<Rightarrow> l) @ [tx]) m)"

text \<open>
  The arm of \<^verbatim>\<open>mainLoop\<close> for a new-transactions event (lines 520-547); \<open>evTxs\<close> is \<^verbatim>\<open>ev.Txs\<close>.
  \<^verbatim>\<open>continue\<close> goes back to the \<^verbatim>\<open>select\<close>: the arm ends there. \<^verbatim>\<open>int32(len(ev.Txs))\<close> keeps the
  low 32 bits of the length.
\<close>

definition mainLoop_txsCh ::
  "('w, 'it, 'f) collab \<Rightarrow> ctx \<Rightarrow> nat \<Rightarrow> ('w, 'f) worker \<Rightarrow> Transaction list
     \<Rightarrow> (('w, 'f) worker \<times> nat) option" where
  "mainLoop_txsCh c nodeCtx fresh w evTxs =
     (case (if isRunning w then None else current w) of
        Some cur \<Rightarrow>
          (if (case gasPool cur of None \<Rightarrow> False | Some gp \<Rightarrow> gp < TxGas) then Some (w, fresh)
           else
             (let txset = NewTransactionsByPriceAndNonce c (bucketBySender evTxs [])
                            (BaseFee (header cur)) False;
                  tcount0 = tcount cur
              in case commitTransactions c w cur txset None of
                   None \<Rightarrow> None
                 | Some (r, w1, cur', txset') \<Rightarrow>
                     (case (if tcount0 \<noteq> tcount cur'
                            then updateSnapshot c nodeCtx fresh (w1\<lparr>current := Some cur'\<rparr>) cur'
                            else Some (w1\<lparr>current := Some cur'\<rparr>, fresh)) of
                        None \<Rightarrow> None
                      | Some (w2, fresh') \<Rightarrow>
                          Some (w2\<lparr>newTxs := newTxs w2 + of_nat (length evTxs)\<rparr>, fresh'))))
      | None \<Rightarrow> Some (w\<lparr>newTxs := newTxs w + of_nat (length evTxs)\<rparr>, fresh))"

section \<open>Finalize, assemble, broadcast\<close>

definition getPendingBlockBodyKey :: "('w, 'it, 'f) collab \<Rightarrow> Header \<Rightarrow> hash" where
  "getPendingBlockBodyKey c h = RlpHash c [UncleHash h, TxHash h, EtxHash h]"

definition AddPendingBlockBody ::
  "('w, 'it, 'f) collab \<Rightarrow> ('w, 'f) worker \<Rightarrow> Header \<Rightarrow> Body \<Rightarrow> ('w, 'f) worker" where
  "AddPendingBlockBody c w h b =
     w\<lparr>pendingBlockBody := lru_ContainsOrAdd (pendingBlockBody w) (getPendingBlockBodyKey c h) (Some b)\<rparr>"

text \<open>
  \<^verbatim>\<open>FinalizeAssembleAndBroadcast\<close> (lines 923-966); the parent block is not nil. The setters act
  on the header of the assembled block (\<^verbatim>\<open>block.Header()\<close> is that header, as the spec has it:
  ``set \<^verbatim>\<open>header.manifestHash\<close>''). \<open>manifestOf\<close> and \<open>etxRollupOf\<close> are the two computations of
  lines 931-943 and 949-958.
\<close>

definition manifestOf ::
  "('w, 'it, 'f) collab \<Rightarrow> ctx \<Rightarrow> Header \<Rightarrow> Block \<Rightarrow> error + hash list" where
  "manifestOf c nodeCtx h parent =
     (if nodeCtx = PRIME_CTX then Inr []
      else if IsDomCoincident c (blockHeader parent) then Inr [Hash c (blockHeader parent)]
      else (case CollectBlockManifest c (blockHeader parent) of
              Inl e \<Rightarrow> Inl e
            | Inr manifest \<Rightarrow> Inr (manifest @ [ParentHash h])))"

definition etxRollupOf ::
  "('w, 'it, 'f) collab \<Rightarrow> Block \<Rightarrow> error + Transaction list" where
  "etxRollupOf c parent =
     (if IsDomCoincident c (blockHeader parent) then Inr (ExtTransactions (blockBody parent))
      else (case CollectEtxRollup c parent of
              Inl e \<Rightarrow> Inl e
            | Inr etxRollup \<Rightarrow> Inr (etxRollup @ ExtTransactions (blockBody parent))))"

definition FinalizeAssembleAndBroadcast ::
  "('w, 'it, 'f) collab \<Rightarrow> ctx \<Rightarrow> ('w, 'f) worker \<Rightarrow> Header \<Rightarrow> Block \<Rightarrow> 'w StateDB option
     \<Rightarrow> Transaction list \<Rightarrow> Header list \<Rightarrow> Transaction list \<Rightarrow> hash list \<Rightarrow> Receipt list
     \<Rightarrow> ('w, 'f) worker \<times> (error + Block)" where
  "FinalizeAssembleAndBroadcast c nodeCtx w h parent st ts us es sm rs =
     (case FinalizeAndAssemble c h st ts us es sm rs of
        Inl e \<Rightarrow> (w, Inl e)
      | Inr block \<Rightarrow>
          (case manifestOf c nodeCtx h parent of
             Inl e \<Rightarrow> (w, Inl e)
           | Inr manifest \<Rightarrow>
               (let block1 = block\<lparr>blockHeader :=
                               (blockHeader block)\<lparr>ManifestHash := DeriveShaManifest c manifest\<rparr>\<rparr>
                in if nodeCtx = ZONE_CTX then
                     (case etxRollupOf c parent of
                        Inl e \<Rightarrow> (w, Inl e)
                      | Inr etxRollup \<Rightarrow>
                          (let block2 = block1\<lparr>blockHeader :=
                                 (blockHeader block1)\<lparr>EtxRollupHash := DeriveShaTxs c etxRollup\<rparr>\<rparr>
                           in (AddPendingBlockBody c w (blockHeader block2) (blockBody block2),
                               Inr block2)))
                   else (AddPendingBlockBody c w (blockHeader block1) (blockBody block1),
                         Inr block1))))"

section \<open>Persisting the pending-body cache\<close>

definition emptyBody :: Body where
  "emptyBody = \<lparr>Transactions = [], Uncles = [], ExtTransactions = [], SubManifest = []\<rparr>"

text \<open>
  \<^verbatim>\<open>StorePendingBlockBody\<close> (lines 375-388): \<open>storeLoop\<close> is the \<^verbatim>\<open>range\<close> over the keys of the
  cache; it collects the keys it finds and writes every body but the one under the empty-body
  hash \<open>e\<close>.
\<close>

fun storeLoop ::
  "hash \<Rightarrow> lruCache \<Rightarrow> hash list \<Rightarrow> hash list \<times> pbTable \<Rightarrow> hash list \<times> pbTable" where
  "storeLoop e cache [] acc = acc"
| "storeLoop e cache (key # rest) (pendingBlockBodyKeys, db) =
     (case lru_Peek cache key of
        None \<Rightarrow> storeLoop e cache rest (pendingBlockBodyKeys, db)
      | Some v \<Rightarrow>
          storeLoop e cache rest
            (pendingBlockBodyKeys @ [key], if key \<noteq> e then WritePbCacheBody db key v else db))"

definition StorePendingBlockBody ::
  "('w, 'it, 'f) collab \<Rightarrow> ('w, 'f) worker \<Rightarrow> ('w, 'f) worker" where
  "StorePendingBlockBody c w =
     (let (pendingBlockBodyKeys, db) =
            storeLoop (EmptyBodyHash c) (pendingBlockBody w) (lru_Keys (pendingBlockBody w))
              ([], workerDb w)
      in w\<lparr>workerDb := WritePbBodyKeys db pendingBlockBodyKeys\<rparr>)"

text \<open>
  \<^verbatim>\<open>LoadPendingBlockBody\<close> (lines 361-372): \<open>loadLoop\<close> is the \<^verbatim>\<open>range\<close> over the persisted keys;
  each key is added to the cache and its body is deleted from the store.
\<close>

fun loadLoop :: "hash \<Rightarrow> hash list \<Rightarrow> lruCache \<times> pbTable \<Rightarrow> lruCache \<times> pbTable" where
  "loadLoop e [] acc = acc"
| "loadLoop e (key # rest) (cache, db) =
     loadLoop e rest
       (lru_Add cache key (if key = e then Some emptyBody else ReadPbCacheBody db key),
        DeletePbCacheBody db key)"

definition LoadPendingBlockBody ::
  "('w, 'it, 'f) collab \<Rightarrow> ('w, 'f) worker \<Rightarrow> ('w, 'f) worker" where
  "LoadPendingBlockBody c w =
     (let (cache, db) = loadLoop (EmptyBodyHash c) (ReadPbBodyKeys (workerDb w))
                          (pendingBlockBody w, workerDb w)
      in w\<lparr>pendingBlockBody := cache, workerDb := db\<rparr>)"

text \<open>
  What an entry of the cache reads back as after it was persisted and loaded: the entry under
  the empty-body hash \<open>e\<close> comes back with the empty body, every other entry as it was.
\<close>

definition rehydrate :: "hash \<Rightarrow> hash \<times> Body option \<Rightarrow> hash \<times> Body option" where
  "rehydrate e kv = (fst kv, if fst kv = e then Some emptyBody else snd kv)"

section \<open>Sample collaborators and inputs\<close>

text \<open>
  Concrete collaborators and inputs, used to run the definitions: a header hash that is a
  function of the number and the parent hash, a transaction executor that fails on gas and on
  the nonce 7, an iterator that is a list of per-sender queues, and rationals for \<^verbatim>\<open>float64\<close>.
\<close>

definition sampleHeader :: Header where
  "sampleHeader = \<lparr>ParentHash = 11, Number = 12, GasLimit = 42000, GasUsed = 0, BaseFee = 1,
     UncleHash = 0, TxHash = 0, EtxHash = 0, ManifestHash = 0, EtxRollupHash = 0\<rparr>"

definition headerAt :: "nat \<Rightarrow> hash \<Rightarrow> Header" where
  "headerAt n p = sampleHeader\<lparr>Number := n, ParentHash := p\<rparr>"

definition blockAt :: "nat \<Rightarrow> hash \<Rightarrow> Block" where
  "blockAt n p = \<lparr>blockHeader = headerAt n p,
     blockBody = \<lparr>Transactions = [], Uncles = [], ExtTransactions = [], SubManifest = []\<rparr>\<rparr>"

definition sampleState :: "nat StateDB" where
  "sampleState = \<lparr>objId = 0, world = 0, validRevisions = [], thash = 0, txIndex = 0\<rparr>"

definition sampleEnv :: "nat environment" where
  "sampleEnv = \<lparr>state = Some sampleState, ancestors = {10, 9, 8}, family = {10, 9, 8, 7},
     tcount = 0, gasPool = None, coinbase = 1, header = sampleHeader, txs = [], etxs = [],
     subManifest = [], receipts = [], uncles = [], externalGasUsed = 9000,
     externalBlockLength = 2\<rparr>"

definition sampleApply ::
  "address \<Rightarrow> GasPool option \<Rightarrow> nat StateDB \<Rightarrow> Header \<Rightarrow> Transaction \<Rightarrow> u64
     \<Rightarrow> (error + Receipt) \<times> GasPool \<times> nat \<times> u64" where
  "sampleApply cb gp s h tx used =
     (let gas = (case gp of None \<Rightarrow> 0 | Some g \<Rightarrow> g) in
      if gas < 21000 then (Inl [ErrGasLimitReached], gas, world s, used)
      else if tx_nonce tx = 7
        then (Inl [ErrorNew ''nonce too high'', ErrNonceTooHigh], gas, world s + 1, used + 5)
      else (Inr \<lparr>Status = (if tx_nonce tx = 3 then 0 else 1), Logs = [tx_hash tx],
                  Etxs = [tx]\<rparr>,
            gas - 21000, world s + 1, used + 21000))"

definition samplePeek :: "Transaction list list \<Rightarrow> Transaction option" where
  "samplePeek it = (case it of [] \<Rightarrow> None | q # qs \<Rightarrow> (case q of [] \<Rightarrow> None | t # ts \<Rightarrow> Some t))"

definition sampleShift :: "Transaction list list \<Rightarrow> address \<Rightarrow> bool \<Rightarrow> Transaction list list" where
  "sampleShift it a b =
     (case it of [] \<Rightarrow> [] | q # qs \<Rightarrow> (if tl q = [] then qs else tl q # qs))"

definition sampleCollab :: "(nat, Transaction list list, rat) collab" where
  "sampleCollab = \<lparr>Hash = (\<lambda>h. 100 * Number h + ParentHash h),
     ApplyTransaction = sampleApply,
     Peek = samplePeek, Shift = sampleShift, Pop = tl,
     NewTransactionsByPriceAndNonce = (\<lambda>m fee b. map snd m),
     NewBlock = (\<lambda>h ts us es m rs. \<lparr>blockHeader = h, blockBody =
        \<lparr>Transactions = ts, Uncles = us, ExtTransactions = es, SubManifest = m\<rparr>\<rparr>),
     CalcGasLimit = (\<lambda>parentLimit used. parentLimit + used),
     FinalizeAndAssemble = (\<lambda>h s ts us es m rs. Inr \<lparr>blockHeader = h, blockBody =
        \<lparr>Transactions = ts, Uncles = us, ExtTransactions = es, SubManifest = m\<rparr>\<rparr>),
     IsDomCoincident = (\<lambda>h. even (Number h)),
     CollectBlockManifest = (\<lambda>h. if Number h = 0 then Inl [ErrorNew ''no manifest''] else Inr [ParentHash h]),
     CollectEtxRollup = (\<lambda>b. Inr (ExtTransactions (blockBody b))),
     DeriveShaManifest = (\<lambda>m. 7 + sum_list m),
     DeriveShaTxs = (\<lambda>ts. 3 + sum_list (map tx_hash ts)),
     RlpHash = sum_list,
     EmptyBodyHash = 0,
     float64 = (\<lambda>x. of_nat (unat x)),
     fdiv = (\<lambda>a b. a / b),
     fless = (\<lambda>a b. a < b),
     ftenth = 1 / 10\<rparr>"

definition sampleWorker :: "(nat, rat) worker" where
  "sampleWorker = \<lparr>current = None, localUncles = [(3, blockAt 3 2), (9, blockAt 9 8)],
     remoteUncles = [(4, blockAt 4 2)],
     resubmitAdjustCh = [], pendingLogsFeed = [],
     workerDb = \<lparr>pbBodyKeys = None, pbBodies = (\<lambda>k. None)\<rparr>,
     pendingBlockBody = lru_New pendingBlockBodyLimit,
     snapshotBlock = None, snapshotReceipts = None, snapshotState = None,
     running = 0, newTxs = 0\<rparr>"

definition sampleEnvTwoUncles :: "nat environment" where
  "sampleEnvTwoUncles = sampleEnv\<lparr>uncles := [(1210, headerAt 12 10), (1109, headerAt 11 9)]\<rparr>"

definition samplePool :: "(hash \<times> Block) list" where
  "samplePool = [(1210, blockAt 12 10), (1211, blockAt 12 11), (1109, blockAt 11 9), (1008, blockAt 10 8)]"

definition sampleTx :: "nat \<Rightarrow> address \<Rightarrow> u64 \<Rightarrow> Transaction" where
  "sampleTx h a n = \<lparr>tx_hash = h, tx_from = a, tx_nonce = n\<rparr>"

definition sampleEnvGas :: "nat environment" where
  "sampleEnvGas = sampleEnv\<lparr>gasPool := Some 42000\<rparr>"


definition sampleSize :: "Transaction list list \<Rightarrow> nat" where
  "sampleSize it = sum_list (map length it)"




definition sampleQueues :: "Transaction list list" where
  "sampleQueues = [[sampleTx 5 1 7, sampleTx 6 1 8], [sampleTx 9 2 0]]"

definition sampleEvent :: "Transaction list" where
  "sampleEvent = [sampleTx 5 1 0, sampleTx 6 1 1, sampleTx 7 2 0]"

definition sampleWorkerFull :: "(nat, rat) worker" where
  "sampleWorkerFull = sampleWorker\<lparr>current := Some (sampleEnv\<lparr>gasPool := Some 20999\<rparr>)\<rparr>"

definition samplePrimeEnv :: "nat environment" where
  "samplePrimeEnv = sampleEnv\<lparr>state := None\<rparr>"

definition sampleSnapshotBlock :: Block where
  "sampleSnapshotBlock = \<lparr>blockHeader = sampleHeader,
     blockBody = \<lparr>Transactions = [], Uncles = [], ExtTransactions = [], SubManifest = []\<rparr>\<rparr>"

definition sampleBody :: Body where
  "sampleBody = emptyBody\<lparr>SubManifest := [1]\<rparr>"

definition sampleCacheWorker :: "(nat, rat) worker" where
  "sampleCacheWorker = sampleWorker\<lparr>pendingBlockBody :=
     (lru_New pendingBlockBodyLimit)\<lparr>items := [(0, Some sampleBody), (5, Some sampleBody)]\<rparr>\<rparr>"

section \<open>Properties: uncles\<close>

lemma maplen_card: "maplen m = card (fst ` set m)"
  by (simp add: maplen_def length_remdups_card_conv)

lemma maplen_update_new:
  "map_of m k = None \<Longrightarrow> maplen (AList.update k v m) = Suc (maplen m)"
  by (simp add: maplen_card dom_update map_of_eq_None_iff)

lemma sweepStale_map_of:
  "map_of (sweepStale head es m) h =
     (if \<exists>u. (h, u) \<in> set es \<and> NumberU64 u + staleThreshold \<le> head then None else map_of m h)"
proof (induction es arbitrary: m)
  case Nil
  then show ?case by simp
next
  case (Cons e es)
  obtain k u where e: "e = (k, u)" by (cases e)
  show ?case
    unfolding e by (auto simp: Cons.IH delete_conv')
qed

lemma sweepStale_self:
  assumes "distinct (map fst m)"
  shows "map_of (sweepStale head m m) h = Some u \<longleftrightarrow>
         map_of m h = Some u \<and> \<not> NumberU64 u + staleThreshold \<le> head"
  using assms by (auto simp: sweepStale_map_of dest: eq_key_imp_eq_value)

lemma NumberU64_stale_nat:
  assumes "Number (blockHeader u) + 7 < 2 ^ 64" "Number (blockHeader ch) < 2 ^ 64"
  shows "NumberU64 u + staleThreshold \<le> NumberU64 ch \<longleftrightarrow> Number (blockHeader u) + 7 \<le> Number (blockHeader ch)"
proof -
  have "NumberU64 u + staleThreshold = (of_nat (Number (blockHeader u) + 7) :: u64)"
    by (simp add: NumberU64_def staleThreshold_def)
  then show ?thesis
    using assms by (simp add: NumberU64_def word_le_nat_alt unat_of_nat del: of_nat_add)
qed

lemma update_absent: "map_of m k = None \<Longrightarrow> AList.update k v m = m @ [(k, v)]"
  by (induction m) (auto split: if_splits)

lemma commitUncle_maplen_le:
  "maplen (uncles (fst (commitUncle c env uncle))) \<le> Suc (maplen (uncles env))"
  by (simp add: commitUncle_def Let_def maplen_update_new)

lemma commitUncles_cap:
  "maplen (uncles env) \<le> 2 \<Longrightarrow> maplen (uncles (commitUncles c env blocks)) \<le> 2"
proof (induction blocks arbitrary: env)
  case Nil
  then show ?case by simp
next
  case (Cons b blocks)
  obtain hash uncle where b: "b = (hash, uncle)" by (cases b)
  show ?case
  proof (cases "maplen (uncles env) = 2")
    case True
    then show ?thesis by (simp add: b)
  next
    case False
    with Cons.prems have "maplen (uncles env) \<le> 1" by simp
    then have "maplen (uncles (fst (commitUncle c env (blockHeader uncle)))) \<le> 2"
      using commitUncle_maplen_le [of c env "blockHeader uncle"] by simp
    then show ?thesis
      using False by (simp add: b Cons.IH)
  qed
qed

text \<open>
  Claim C4, as the code has it. \<^verbatim>\<open>commitUncle\<close> succeeds exactly when the candidate's hash is
  not yet in the uncle map, its parent is not the parent of the header, its parent is among the
  ancestors and its hash is not in the family; it then appends the candidate and the map grows
  by one entry. Otherwise the environment is unchanged and the error names the first rule that
  fails, each rule with an error of its own. \<^verbatim>\<open>commitUncle\<close> does not look at the size of the
  map: the bound of two uncles is kept by the loop of \<^verbatim>\<open>prepareWork\<close> that calls it, which stops
  as soon as the map has two entries.
\<close>

theorem C4_commitUncle:
  "(snd (commitUncle c env uncle) = None \<longleftrightarrow>
      map_of (uncles env) (Hash c uncle) = None
      \<and> ParentHash uncle \<noteq> ParentHash (header env)
      \<and> ParentHash uncle \<in> ancestors env
      \<and> Hash c uncle \<notin> family env)
   \<and> (snd (commitUncle c env uncle) = None \<longrightarrow>
        fst (commitUncle c env uncle) = env\<lparr>uncles := uncles env @ [(Hash c uncle, uncle)]\<rparr>
        \<and> maplen (uncles (fst (commitUncle c env uncle))) = Suc (maplen (uncles env)))
   \<and> (snd (commitUncle c env uncle) \<noteq> None \<longrightarrow> fst (commitUncle c env uncle) = env)
   \<and> (map_of (uncles env) (Hash c uncle) \<noteq> None \<longrightarrow>
        snd (commitUncle c env uncle) = Some [ErrorNew ''uncle not unique''])
   \<and> (map_of (uncles env) (Hash c uncle) = None \<and> ParentHash uncle = ParentHash (header env) \<longrightarrow>
        snd (commitUncle c env uncle) = Some [ErrorNew ''uncle is sibling''])
   \<and> (map_of (uncles env) (Hash c uncle) = None \<and> ParentHash uncle \<noteq> ParentHash (header env)
        \<and> ParentHash uncle \<notin> ancestors env \<longrightarrow>
        snd (commitUncle c env uncle) = Some [ErrorNew ''uncle's parent unknown''])
   \<and> (map_of (uncles env) (Hash c uncle) = None \<and> ParentHash uncle \<noteq> ParentHash (header env)
        \<and> ParentHash uncle \<in> ancestors env \<and> Hash c uncle \<in> family env \<longrightarrow>
        snd (commitUncle c env uncle) = Some [ErrorNew ''uncle already included''])
   \<and> (maplen (uncles env) \<le> 2 \<longrightarrow> maplen (uncles (commitUncles c env blocks)) \<le> 2)"
proof -
  have ok: "commitUncle c env uncle = (env\<lparr>uncles := uncles env @ [(Hash c uncle, uncle)]\<rparr>, None)"
    if "map_of (uncles env) (Hash c uncle) = None" "ParentHash uncle \<noteq> ParentHash (header env)"
       "ParentHash uncle \<in> ancestors env" "Hash c uncle \<notin> family env"
    using that by (auto simp: commitUncle_def Let_def update_absent)
  have len: "maplen (uncles env @ [(Hash c uncle, uncle)]) = Suc (maplen (uncles env))"
    if "map_of (uncles env) (Hash c uncle) = None"
    using that maplen_update_new [of "uncles env" "Hash c uncle" uncle] by (simp add: update_absent)
  have iff: "snd (commitUncle c env uncle) = None \<longleftrightarrow>
      map_of (uncles env) (Hash c uncle) = None
      \<and> ParentHash uncle \<noteq> ParentHash (header env)
      \<and> ParentHash uncle \<in> ancestors env
      \<and> Hash c uncle \<notin> family env"
    by (auto simp: commitUncle_def Let_def)
  have unchanged: "snd (commitUncle c env uncle) \<noteq> None \<longrightarrow> fst (commitUncle c env uncle) = env"
    by (auto simp: commitUncle_def Let_def)
  have errs: "map_of (uncles env) (Hash c uncle) \<noteq> None \<longrightarrow>
        snd (commitUncle c env uncle) = Some [ErrorNew ''uncle not unique'']"
     "map_of (uncles env) (Hash c uncle) = None \<and> ParentHash uncle = ParentHash (header env) \<longrightarrow>
        snd (commitUncle c env uncle) = Some [ErrorNew ''uncle is sibling'']"
     "map_of (uncles env) (Hash c uncle) = None \<and> ParentHash uncle \<noteq> ParentHash (header env)
        \<and> ParentHash uncle \<notin> ancestors env \<longrightarrow>
        snd (commitUncle c env uncle) = Some [ErrorNew ''uncle's parent unknown'']"
     "map_of (uncles env) (Hash c uncle) = None \<and> ParentHash uncle \<noteq> ParentHash (header env)
        \<and> ParentHash uncle \<in> ancestors env \<and> Hash c uncle \<in> family env \<longrightarrow>
        snd (commitUncle c env uncle) = Some [ErrorNew ''uncle already included'']"
    by (auto simp: commitUncle_def Let_def)
  have succ: "snd (commitUncle c env uncle) = None \<longrightarrow>
        fst (commitUncle c env uncle) = env\<lparr>uncles := uncles env @ [(Hash c uncle, uncle)]\<rparr>
        \<and> maplen (uncles (fst (commitUncle c env uncle))) = Suc (maplen (uncles env))"
    using ok len iff by simp
  have cap: "maplen (uncles env) \<le> 2 \<longrightarrow> maplen (uncles (commitUncles c env blocks)) \<le> 2"
    using commitUncles_cap [of env c blocks] by simp
  show ?thesis
    by (intro conjI iff succ unchanged errs cap)
qed

text \<open>
  Claim C4 as stated fails: called on an environment that already holds two uncles,
  \<^verbatim>\<open>commitUncle\<close> admits a third valid candidate.
\<close>

theorem C4_commitUncle_counterexample:
  "maplen (uncles sampleEnvTwoUncles) = 2
   \<and> snd (commitUncle sampleCollab sampleEnvTwoUncles (headerAt 10 8)) = None
   \<and> maplen (uncles (fst (commitUncle sampleCollab sampleEnvTwoUncles (headerAt 10 8)))) = 3"
  by (simp add: sampleEnvTwoUncles_def sampleEnv_def sampleCollab_def headerAt_def
      sampleHeader_def commitUncle_def maplen_def)

theorem C4_commitUncle_witness:
  "snd (commitUncle sampleCollab sampleEnv (headerAt 12 10)) = None
   \<and> uncles (fst (commitUncle sampleCollab sampleEnv (headerAt 12 10))) = [(1210, headerAt 12 10)]
   \<and> snd (commitUncle sampleCollab sampleEnv (headerAt 12 11)) = Some [ErrorNew ''uncle is sibling'']
   \<and> snd (commitUncle sampleCollab sampleEnv (headerAt 12 5)) = Some [ErrorNew ''uncle's parent unknown'']
   \<and> maplen (uncles sampleEnv) \<le> 2
   \<and> maplen (uncles (commitUncles sampleCollab sampleEnv samplePool)) \<le> 2"
proof -
  have a: "map_of (uncles sampleEnv) (Hash sampleCollab (headerAt 12 10)) = None
      \<and> ParentHash (headerAt 12 10) \<noteq> ParentHash (header sampleEnv)
      \<and> ParentHash (headerAt 12 10) \<in> ancestors sampleEnv
      \<and> Hash sampleCollab (headerAt 12 10) \<notin> family sampleEnv"
    by (simp add: sampleEnv_def sampleCollab_def headerAt_def sampleHeader_def)
  have b: "map_of (uncles sampleEnv) (Hash sampleCollab (headerAt 12 11)) = None
      \<and> ParentHash (headerAt 12 11) = ParentHash (header sampleEnv)"
    by (simp add: sampleEnv_def sampleCollab_def headerAt_def sampleHeader_def)
  have d: "map_of (uncles sampleEnv) (Hash sampleCollab (headerAt 12 5)) = None
      \<and> ParentHash (headerAt 12 5) \<noteq> ParentHash (header sampleEnv)
      \<and> ParentHash (headerAt 12 5) \<notin> ancestors sampleEnv"
    by (simp add: sampleEnv_def sampleCollab_def headerAt_def sampleHeader_def)
  have e: "maplen (uncles sampleEnv) \<le> 2" "uncles sampleEnv = []"
     "Hash sampleCollab (headerAt 12 10) = 1210"
    by (simp_all add: sampleEnv_def maplen_def sampleCollab_def headerAt_def sampleHeader_def)
  show ?thesis
    using a b d e C4_commitUncle [of sampleCollab sampleEnv "headerAt 12 10" samplePool]
      C4_commitUncle [of sampleCollab sampleEnv "headerAt 12 11" samplePool]
      C4_commitUncle [of sampleCollab sampleEnv "headerAt 12 5" samplePool]
    by simp
qed


section \<open>Properties: the clean-up tick\<close>

text \<open>
  Claim C7, as the code has it. After the tick a pool holds exactly the uncles it held before
  whose number plus 7, in \<^verbatim>\<open>uint64\<close>, exceeds the number of the chain head; where the numbers
  fit 64 bits, an uncle is removed if and only if it is at least 7 blocks behind the head.
\<close>

theorem C7_cleanTicker:
  assumes "distinct (map fst (localUncles w))" and "distinct (map fst (remoteUncles w))"
  shows "(map_of (localUncles (mainLoop_cleanTicker chainHead w)) h = Some u \<longleftrightarrow>
            map_of (localUncles w) h = Some u
            \<and> \<not> NumberU64 u + staleThreshold \<le> NumberU64 chainHead)
       \<and> (map_of (remoteUncles (mainLoop_cleanTicker chainHead w)) h = Some u \<longleftrightarrow>
            map_of (remoteUncles w) h = Some u
            \<and> \<not> NumberU64 u + staleThreshold \<le> NumberU64 chainHead)
       \<and> (Number (blockHeader u) + 7 < 2 ^ 64 \<and> Number (blockHeader chainHead) < 2 ^ 64 \<longrightarrow>
            (NumberU64 u + staleThreshold \<le> NumberU64 chainHead \<longleftrightarrow>
             Number (blockHeader u) + 7 \<le> Number (blockHeader chainHead)))"
proof -
  have l: "localUncles (mainLoop_cleanTicker chainHead w)
             = sweepStale (NumberU64 chainHead) (localUncles w) (localUncles w)"
    by (simp add: mainLoop_cleanTicker_def Let_def)
  have r: "remoteUncles (mainLoop_cleanTicker chainHead w)
             = sweepStale (NumberU64 chainHead) (remoteUncles w) (remoteUncles w)"
    by (simp add: mainLoop_cleanTicker_def Let_def)
  show ?thesis
    unfolding l r
    using sweepStale_self [OF assms(1)] sweepStale_self [OF assms(2)] NumberU64_stale_nat
    by blast
qed

text \<open>
  Claim C7 as stated fails: an uncle exactly 7 blocks behind the chain head is removed.
\<close>

theorem C7_cleanTicker_counterexample:
  "map_of (localUncles sampleWorker) 3 = Some (blockAt 3 2)
   \<and> Number (blockHeader (blockAt 10 9)) - Number (blockHeader (blockAt 3 2)) = 7
   \<and> map_of (localUncles (mainLoop_cleanTicker (blockAt 10 9) sampleWorker)) 3 = None"
  by (simp add: sampleWorker_def mainLoop_cleanTicker_def blockAt_def headerAt_def sampleHeader_def
      NumberU64_def staleThreshold_def Let_def)

theorem C7_cleanTicker_witness:
  "distinct (map fst (localUncles sampleWorker)) \<and> distinct (map fst (remoteUncles sampleWorker))
   \<and> map_of (localUncles (mainLoop_cleanTicker (blockAt 10 9) sampleWorker)) 9 = Some (blockAt 9 8)
   \<and> map_of (localUncles (mainLoop_cleanTicker (blockAt 10 9) sampleWorker)) 3 \<noteq> Some (blockAt 3 2)
   \<and> map_of (remoteUncles (mainLoop_cleanTicker (blockAt 10 9) sampleWorker)) 4 = Some (blockAt 4 2)"
proof -
  have d: "distinct (map fst (localUncles sampleWorker))" "distinct (map fst (remoteUncles sampleWorker))"
    by (simp_all add: sampleWorker_def)
  have n: "\<not> NumberU64 (blockAt 9 8) + staleThreshold \<le> NumberU64 (blockAt 10 9)"
     "NumberU64 (blockAt 3 2) + staleThreshold \<le> NumberU64 (blockAt 10 9)"
     "\<not> NumberU64 (blockAt 4 2) + staleThreshold \<le> NumberU64 (blockAt 10 9)"
    by (simp_all add: blockAt_def headerAt_def NumberU64_def staleThreshold_def)
  have m: "map_of (localUncles sampleWorker) 9 = Some (blockAt 9 8)"
     "map_of (remoteUncles sampleWorker) 4 = Some (blockAt 4 2)"
    by (simp_all add: sampleWorker_def)
  show ?thesis
    using d n m C7_cleanTicker [OF d, of "blockAt 10 9" 9 "blockAt 9 8"]
      C7_cleanTicker [OF d, of "blockAt 10 9" 3 "blockAt 3 2"]
      C7_cleanTicker [OF d, of "blockAt 10 9" 4 "blockAt 4 2"]
    by blast
qed


section \<open>Properties: the gas limit\<close>

text \<open>
  Claim C9. When \<open>externalBlockLength + 1\<close> is not zero, \<^verbatim>\<open>adjustGasLimit\<close> returns, and the only
  change to the environment is the header's gas limit, set to \<open>CalcGasLimit\<close> of the parent's gas
  limit and of \<open>(parent.gasUsed + externalGasUsed) / (externalBlockLength + 1)\<close> in unsigned
  64-bit arithmetic.
\<close>

theorem C9_adjustGasLimit:
  assumes "externalBlockLength env + 1 \<noteq> 0"
  shows "adjustGasLimit c env parent =
           Some (env\<lparr>header := (header env)\<lparr>GasLimit :=
              CalcGasLimit c (GasLimit (blockHeader parent))
                ((GasUsed (blockHeader parent) + externalGasUsed env) div (externalBlockLength env + 1))\<rparr>\<rparr>)
         \<and> unat ((GasUsed (blockHeader parent) + externalGasUsed env) div (externalBlockLength env + 1))
             = unat (GasUsed (blockHeader parent) + externalGasUsed env) div unat (externalBlockLength env + 1)"
  using assms by (simp add: adjustGasLimit_def unat_div)

theorem C9_adjustGasLimit_witness:
  "externalBlockLength sampleEnv + 1 \<noteq> 0
   \<and> adjustGasLimit sampleCollab sampleEnv (blockAt 11 10)
       = Some (sampleEnv\<lparr>header := sampleHeader\<lparr>GasLimit := 45000\<rparr>\<rparr>)"
  using C9_adjustGasLimit [of sampleEnv sampleCollab "blockAt 11 10"]
  by (simp add: sampleEnv_def sampleCollab_def blockAt_def headerAt_def sampleHeader_def)


section \<open>Properties: committing one transaction\<close>

lemma foldl_append_each: "foldl (\<lambda>acc x. acc @ [x]) ys xs = ys @ xs"
  by (induction xs arbitrary: ys) simp_all

lemma Revert_Snapshot:
  "RevertToSnapshot ((snd (Snapshot s))\<lparr>world := w'\<rparr>) (fst (Snapshot s)) = Some s"
  by (simp add: RevertToSnapshot_def Snapshot_def)

lemma commitTransaction_nil:
  "commitTransaction c env None = Some (env, [], Some [ErrorNew ''error finding transaction''])"
  by (simp add: commitTransaction_def)

lemma commitTransaction_error:
  assumes "state env = Some s"
    and "ApplyTransaction c (coinbase env) (gasPool env) (snd (Snapshot s)) (header env) t
           (GasUsed (header env)) = (Inl e, gp', w', used')"
  shows "commitTransaction c env (Some t)
           = Some (env\<lparr>gasPool := map_option (\<lambda>_. gp') (gasPool env)\<rparr>, [], Some e)"
proof -
  obtain snap s1 where sn: "Snapshot s = (snap, s1)" by (cases "Snapshot s")
  have r: "RevertToSnapshot (s1\<lparr>world := w'\<rparr>) snap = Some s"
    using Revert_Snapshot [where s=s and w'=w'] by (simp add: sn)
  show ?thesis
    using assms by (simp add: commitTransaction_def sn r)
qed

lemma commitTransaction_success:
  assumes "state env = Some s"
    and "ApplyTransaction c (coinbase env) (gasPool env) (snd (Snapshot s)) (header env) t
           (GasUsed (header env)) = (Inr r, gp', w', used')"
  shows "commitTransaction c env (Some t)
           = Some (env\<lparr>state := Some ((snd (Snapshot s))\<lparr>world := w'\<rparr>),
                       gasPool := map_option (\<lambda>_. gp') (gasPool env),
                       header := (header env)\<lparr>GasUsed := used'\<rparr>,
                       txs := txs env @ [t],
                       receipts := receipts env @ [r],
                       etxs := (if Status r = ReceiptStatusSuccessful then etxs env @ Etxs r
                                else etxs env)\<rparr>,
                   Logs r, None)"
proof -
  obtain snap s1 where sn: "Snapshot s = (snap, s1)" by (cases "Snapshot s")
  show ?thesis
    using assms by (simp add: commitTransaction_def sn foldl_append_each)
qed

lemma commitTransaction_cases:
  assumes "state env = Some s"
  obtains (failed) e gp' w' used' where
      "ApplyTransaction c (coinbase env) (gasPool env) (snd (Snapshot s)) (header env) t
           (GasUsed (header env)) = (Inl e, gp', w', used')"
      "commitTransaction c env (Some t)
           = Some (env\<lparr>gasPool := map_option (\<lambda>_. gp') (gasPool env)\<rparr>, [], Some e)"
  | (succeeded) r gp' w' used' where
      "ApplyTransaction c (coinbase env) (gasPool env) (snd (Snapshot s)) (header env) t
           (GasUsed (header env)) = (Inr r, gp', w', used')"
      "commitTransaction c env (Some t)
           = Some (env\<lparr>state := Some ((snd (Snapshot s))\<lparr>world := w'\<rparr>),
                       gasPool := map_option (\<lambda>_. gp') (gasPool env),
                       header := (header env)\<lparr>GasUsed := used'\<rparr>,
                       txs := txs env @ [t],
                       receipts := receipts env @ [r],
                       etxs := (if Status r = ReceiptStatusSuccessful then etxs env @ Etxs r
                                else etxs env)\<rparr>,
                   Logs r, None)"
proof -
  obtain res gp' w' used' where a:
    "ApplyTransaction c (coinbase env) (gasPool env) (snd (Snapshot s)) (header env) t
           (GasUsed (header env)) = (res, gp', w', used')"
    using prod_cases4 by blast
  show thesis
  proof (cases res)
    case (Inl e)
    with a have a': "ApplyTransaction c (coinbase env) (gasPool env) (snd (Snapshot s)) (header env) t
           (GasUsed (header env)) = (Inl e, gp', w', used')" by simp
    show ?thesis
      by (rule failed [OF a' commitTransaction_error [OF assms a']])
  next
    case (Inr r)
    with a have a': "ApplyTransaction c (coinbase env) (gasPool env) (snd (Snapshot s)) (header env) t
           (GasUsed (header env)) = (Inr r, gp', w', used')" by simp
    show ?thesis
      by (rule succeeded [OF a' commitTransaction_success [OF assms a']])
  qed
qed

text \<open>
  Claim C3. \<^verbatim>\<open>commitTransaction\<close> returns whenever the transaction is nil or the state is not.
  When it returns an error, the state is the one at entry (the journal is reverted to the
  snapshot) and the transactions, receipts, cross-context transactions and header are unchanged.
  When it succeeds, the transaction and the receipt of \<open>ApplyTransaction\<close> are appended (so
  equal lengths stay equal), the gas counter \<open>ApplyTransaction\<close> left is written to the header,
  the receipt's cross-context transactions are appended exactly when its status is successful,
  and the receipt's logs are returned.
\<close>

theorem C3_commitTransaction:
  "(tx = None \<or> state env \<noteq> None \<longrightarrow> commitTransaction c env tx \<noteq> None)
   \<and> (\<forall>env' logs e. commitTransaction c env tx = Some (env', logs, Some e) \<longrightarrow>
         state env' = state env \<and> txs env' = txs env \<and> receipts env' = receipts env
         \<and> etxs env' = etxs env \<and> header env' = header env \<and> logs = [])
   \<and> (\<forall>env' logs. commitTransaction c env tx = Some (env', logs, None) \<longrightarrow>
         (\<exists>t s r gp' w' used'.
            tx = Some t \<and> state env = Some s
            \<and> ApplyTransaction c (coinbase env) (gasPool env) (snd (Snapshot s)) (header env) t
                 (GasUsed (header env)) = (Inr r, gp', w', used')
            \<and> txs env' = txs env @ [t]
            \<and> receipts env' = receipts env @ [r]
            \<and> (length (txs env) = length (receipts env) \<longrightarrow> length (txs env') = length (receipts env'))
            \<and> header env' = (header env)\<lparr>GasUsed := used'\<rparr>
            \<and> etxs env' = (if Status r = ReceiptStatusSuccessful then etxs env @ Etxs r else etxs env)
            \<and> logs = Logs r))"
proof (cases tx)
  case None
  then show ?thesis by (simp add: commitTransaction_nil)
next
  case (Some t)
  show ?thesis
  proof (cases "state env")
    case None
    then show ?thesis by (simp add: Some commitTransaction_def)
  next
    case st: (Some s)
    show ?thesis
      by (rule commitTransaction_cases [OF st, where c=c and t=t]) (simp_all add: Some st)
  qed
qed

lemma sample_fail:
  "commitTransaction sampleCollab sampleEnvGas (Some (sampleTx 5 1 7))
     = Some (sampleEnvGas, [], Some [ErrorNew ''nonce too high'', ErrNonceTooHigh])"
  by (simp add: commitTransaction_def sampleEnvGas_def sampleEnv_def sampleCollab_def sampleTx_def
      sampleApply_def sampleState_def Snapshot_def RevertToSnapshot_def)

lemma sample_ok:
  "commitTransaction sampleCollab sampleEnvGas (Some (sampleTx 5 1 0))
     = Some (sampleEnvGas\<lparr>state := Some (sampleState\<lparr>world := 1, validRevisions := [0]\<rparr>),
               gasPool := Some 21000, header := sampleHeader\<lparr>GasUsed := 21000\<rparr>,
               txs := [sampleTx 5 1 0],
               receipts := [\<lparr>Status = 1, Logs = [5], Etxs = [sampleTx 5 1 0]\<rparr>],
               etxs := [sampleTx 5 1 0]\<rparr>, [5], None)"
  by (simp add: commitTransaction_def sampleEnvGas_def sampleEnv_def sampleCollab_def sampleTx_def
      sampleApply_def sampleState_def Snapshot_def ReceiptStatusSuccessful_def sampleHeader_def)

theorem C3_commitTransaction_witness:
  "commitTransaction sampleCollab sampleEnvGas (Some (sampleTx 5 1 7))
     = Some (sampleEnvGas, [], Some [ErrorNew ''nonce too high'', ErrNonceTooHigh])
   \<and> state sampleEnvGas = Some sampleState
   \<and> (\<exists>env'. commitTransaction sampleCollab sampleEnvGas (Some (sampleTx 5 1 0)) = Some (env', [5], None)
        \<and> txs env' = [sampleTx 5 1 0] \<and> length (receipts env') = 1
        \<and> GasUsed (header env') = 21000 \<and> etxs env' = [sampleTx 5 1 0])"
  using C3_commitTransaction [of "Some (sampleTx 5 1 7)" sampleEnvGas sampleCollab]
    C3_commitTransaction [of "Some (sampleTx 5 1 0)" sampleEnvGas sampleCollab]
    sample_fail sample_ok
  by (simp add: sampleEnvGas_def sampleEnv_def)


section \<open>Properties: the inclusion loop\<close>

lemma errors_Is_nil [simp]:
  "errors_Is None (Some t) = False" "errors_Is None None = True" "errors_Is (Some e) None = False"
  "errors_Is (Some e) (Some t) = (t \<in> set e)"
  by (simp_all add: errors_Is_def)

lemma loopBody_dispatch:
  assumes "state env = Some s"
    and "commitTransaction c (env\<lparr>state := Some (Prepare s (tx_hash tx) (tcount env))\<rparr>) (Some tx)
           = Some (env1, logs, e)"
  shows "loopBody c env txset coalescedLogs tx =
           (if errors_Is e (Some ErrGasLimitReached) then Some (env1, Pop c txset, coalescedLogs)
            else if errors_Is e (Some ErrNonceTooLow)
              then Some (env1, Shift c txset (tx_from tx) False, coalescedLogs)
            else if errors_Is e (Some ErrNonceTooHigh) then Some (env1, Pop c txset, coalescedLogs)
            else if errors_Is e None
              then Some (env1\<lparr>tcount := tcount env1 + 1\<rparr>, Shift c txset (tx_from tx) False,
                         coalescedLogs @ logs)
            else if errors_Is e (Some ErrTxTypeNotSupported)
              then Some (env1, Pop c txset, coalescedLogs)
            else Some (env1, Shift c txset (tx_from tx) False, coalescedLogs))"
  using assms by (simp add: loopBody_def)

lemma commitTransaction_returns:
  assumes "state env = Some s"
  shows "\<exists>env1 logs e. commitTransaction c env (Some t) = Some (env1, logs, e)
           \<and> state env1 \<noteq> None \<and> (gasPool env \<noteq> None \<longrightarrow> gasPool env1 \<noteq> None)
           \<and> GasLimit (header env1) = GasLimit (header env)"
  by (rule commitTransaction_cases [OF assms, where c=c and t=t]) (auto simp: assms)

lemma loopBody_returns:
  assumes "state env = Some s"
  shows "\<exists>env' txset' logs'. loopBody c env txset coalescedLogs tx = Some (env', txset', logs')
           \<and> state env' \<noteq> None \<and> (gasPool env \<noteq> None \<longrightarrow> gasPool env' \<noteq> None)
           \<and> GasLimit (header env') = GasLimit (header env)
           \<and> (txset' = Pop c txset \<or> txset' = Shift c txset (tx_from tx) False)"
proof -
  let ?env0 = "env\<lparr>state := Some (Prepare s (tx_hash tx) (tcount env))\<rparr>"
  have "state ?env0 = Some (Prepare s (tx_hash tx) (tcount env))" by simp
  from commitTransaction_returns [OF this, of c tx]
  obtain env1 logs e where ct: "commitTransaction c ?env0 (Some tx) = Some (env1, logs, e)"
    and st: "state env1 \<noteq> None" and gp: "gasPool env \<noteq> None \<longrightarrow> gasPool env1 \<noteq> None"
    and gl: "GasLimit (header env1) = GasLimit (header env)"
    by auto
  show ?thesis
    unfolding loopBody_dispatch [OF assms ct]
    using st gp gl by simp
qed

lemma LoadInt32_nil [simp]: "LoadInt32 None k = commitInterruptNone"
  by (simp add: LoadInt32_def)

lemma commitLoop_returns:
  fixes c :: "('w, 'it, 'f) collab" and m :: "'it \<Rightarrow> nat"
  assumes pop: "\<And>it. Peek c it \<noteq> None \<Longrightarrow> m (Pop c it) < m it"
    and shift: "\<And>it a b. Peek c it \<noteq> None \<Longrightarrow> m (Shift c it a b) < m it"
    and "state env \<noteq> None" and "gasPool env \<noteq> None"
  shows "\<exists>exit env' txset' logs' ch' k' gp'.
           commitLoop c interrupt k env txset logs ch = Some (exit, env', txset', logs', ch')
           \<and> k \<le> k' \<and> (\<forall>j. k \<le> j \<and> j < k' \<longrightarrow> LoadInt32 interrupt j = commitInterruptNone)
           \<and> gasPool env' = Some gp'
           \<and> (case exit of
                 Interrupted v \<Rightarrow>
                   interrupt \<noteq> None \<and> v = LoadInt32 interrupt k' \<and> v \<noteq> commitInterruptNone
                   \<and> ch' = ch @ (if v = commitInterruptResubmit
                                  then [\<lparr>ratio = resubmitRatio c (GasLimit (header env')) gp',
                                         inc = True\<rparr>]
                                  else [])
               | OutOfGas \<Rightarrow> ch' = ch \<and> gp' < TxGas
               | NoMoreTxs \<Rightarrow> ch' = ch \<and> Peek c txset' = None)"
  using assms(3,4)
proof (induction "m txset" arbitrary: k env txset logs rule: less_induct)
  case less
  obtain s gp where s: "state env = Some s" and gp: "gasPool env = Some gp"
    using less.prems by auto
  show ?case
  proof (cases "interrupt \<noteq> None \<and> LoadInt32 interrupt k \<noteq> commitInterruptNone")
    case True
    have "commitLoop c interrupt k env txset logs ch =
            Some (Interrupted (LoadInt32 interrupt k), env, txset, logs,
                  ch @ (if LoadInt32 interrupt k = commitInterruptResubmit
                        then [\<lparr>ratio = resubmitRatio c (GasLimit (header env)) gp, inc = True\<rparr>]
                        else []))"
      using True by (subst commitLoop.simps) (simp add: gp)
    then show ?thesis
      using True gp
      by (intro exI [of _ "Interrupted (LoadInt32 interrupt k)"] exI [of _ env] exI [of _ txset]
          exI [of _ logs] exI [of _ "ch @ (if LoadInt32 interrupt k = commitInterruptResubmit
                        then [\<lparr>ratio = resubmitRatio c (GasLimit (header env)) gp, inc = True\<rparr>]
                        else [])"] exI [of _ k] exI [of _ gp]) auto
  next
    case quiet: False
    then have q: "LoadInt32 interrupt k = commitInterruptNone"
      by (cases interrupt) auto
    show ?thesis
    proof (cases "gp < TxGas")
      case True
      have "commitLoop c interrupt k env txset logs ch = Some (OutOfGas, env, txset, logs, ch)"
        using True by (subst commitLoop.simps) (simp add: gp q)
      then show ?thesis
        using True gp
        by (intro exI [of _ OutOfGas] exI [of _ env] exI [of _ txset] exI [of _ logs]
            exI [of _ ch] exI [of _ k] exI [of _ gp]) auto
    next
      case gas: False
      show ?thesis
      proof (cases "Peek c txset")
        case None
        have "commitLoop c interrupt k env txset logs ch = Some (NoMoreTxs, env, txset, logs, ch)"
          using gas None by (subst commitLoop.simps) (simp add: gp q)
        then show ?thesis
          using None gp
          by (intro exI [of _ NoMoreTxs] exI [of _ env] exI [of _ txset] exI [of _ logs]
              exI [of _ ch] exI [of _ k] exI [of _ gp]) auto
      next
        case (Some tx)
        from loopBody_returns [OF s, of c txset logs tx]
        obtain env1 txset1 logs1 where lb: "loopBody c env txset logs tx = Some (env1, txset1, logs1)"
          and st1: "state env1 \<noteq> None" and gp1: "gasPool env1 \<noteq> None"
          and nxt: "txset1 = Pop c txset \<or> txset1 = Shift c txset (tx_from tx) False"
          using gp by auto
        have dec: "m txset1 < m txset"
          using nxt pop [of txset] shift [of txset] Some by auto
        have step: "commitLoop c interrupt k env txset logs ch
                      = commitLoop c interrupt (Suc k) env1 txset1 logs1 ch"
          using gas Some lb by (subst commitLoop.simps) (simp add: gp q)
        from less.hyps [OF dec st1 gp1, of "Suc k" logs1]
        obtain exit env' txset' logs' ch' k' gp' where
          r: "commitLoop c interrupt (Suc k) env1 txset1 logs1 ch = Some (exit, env', txset', logs', ch')"
          and k: "Suc k \<le> k'"
          and pre: "\<forall>j. Suc k \<le> j \<and> j < k' \<longrightarrow> LoadInt32 interrupt j = commitInterruptNone"
          and g: "gasPool env' = Some gp'"
          and post: "(case exit of
                 Interrupted v \<Rightarrow>
                   interrupt \<noteq> None \<and> v = LoadInt32 interrupt k' \<and> v \<noteq> commitInterruptNone
                   \<and> ch' = ch @ (if v = commitInterruptResubmit
                                  then [\<lparr>ratio = resubmitRatio c (GasLimit (header env')) gp',
                                         inc = True\<rparr>]
                                  else [])
               | OutOfGas \<Rightarrow> ch' = ch \<and> gp' < TxGas
               | NoMoreTxs \<Rightarrow> ch' = ch \<and> Peek c txset' = None)"
          by blast
        have pre': "\<forall>j. k \<le> j \<and> j < k' \<longrightarrow> LoadInt32 interrupt j = commitInterruptNone"
        proof (intro allI impI)
          fix j assume "k \<le> j \<and> j < k'"
          then show "LoadInt32 interrupt j = commitInterruptNone"
            using pre q by (cases "j = k") auto
        qed
        have k0: "k \<le> k'" using k by simp
        show ?thesis
          unfolding step r
          using k0 pre' g post by blast
      qed
    qed
  qed
qed

lemma sample_pop: "Peek sampleCollab it \<noteq> None \<Longrightarrow> sampleSize (Pop sampleCollab it) < sampleSize it"
  by (auto simp: sampleCollab_def samplePeek_def sampleSize_def split: list.splits)

lemma sample_shift:
  "Peek sampleCollab it \<noteq> None \<Longrightarrow> sampleSize (Shift sampleCollab it a b) < sampleSize it"
  by (auto simp: sampleCollab_def samplePeek_def sampleShift_def sampleSize_def split: list.splits)







text \<open>
  Claim C1. For the transaction the iterator peeked, \<^verbatim>\<open>commitTransaction\<close> returns, and the loop
  body acts on its error by the table, read top-down: gas limit reached, pop; nonce too low,
  shift the sender; nonce too high, pop; nil, append the logs, add one to \<open>tcount\<close> and shift the
  sender; transaction type not supported, pop; any other error, shift the sender. After each
  of them the loop goes on with the next iteration, and, provided the iterator shrinks on every
  \<open>Pop\<close> and \<open>Shift\<close>, \<^verbatim>\<open>commitTransactions\<close> returns a result: no transaction error ends the
  loop or fails the cycle.
\<close>

theorem C1_dispatch:
  fixes c :: "('w, 'it, 'f) collab" and m :: "'it \<Rightarrow> nat"
  assumes "state env = Some s"
  shows "\<exists>env1 logs e.
           commitTransaction c (env\<lparr>state := Some (Prepare s (tx_hash tx) (tcount env))\<rparr>) (Some tx)
             = Some (env1, logs, e)
           \<and> (errors_Is e (Some ErrGasLimitReached) \<longrightarrow>
                loopBody c env txset coalescedLogs tx = Some (env1, Pop c txset, coalescedLogs))
           \<and> (\<not> errors_Is e (Some ErrGasLimitReached) \<and> errors_Is e (Some ErrNonceTooLow) \<longrightarrow>
                loopBody c env txset coalescedLogs tx
                  = Some (env1, Shift c txset (tx_from tx) False, coalescedLogs))
           \<and> (\<not> errors_Is e (Some ErrGasLimitReached) \<and> \<not> errors_Is e (Some ErrNonceTooLow)
                \<and> errors_Is e (Some ErrNonceTooHigh) \<longrightarrow>
                loopBody c env txset coalescedLogs tx = Some (env1, Pop c txset, coalescedLogs))
           \<and> (e = None \<longrightarrow>
                loopBody c env txset coalescedLogs tx
                  = Some (env1\<lparr>tcount := tcount env1 + 1\<rparr>, Shift c txset (tx_from tx) False,
                          coalescedLogs @ logs))
           \<and> (e \<noteq> None \<and> \<not> errors_Is e (Some ErrGasLimitReached)
                \<and> \<not> errors_Is e (Some ErrNonceTooLow) \<and> \<not> errors_Is e (Some ErrNonceTooHigh)
                \<and> errors_Is e (Some ErrTxTypeNotSupported) \<longrightarrow>
                loopBody c env txset coalescedLogs tx = Some (env1, Pop c txset, coalescedLogs))
           \<and> (e \<noteq> None \<and> \<not> errors_Is e (Some ErrGasLimitReached)
                \<and> \<not> errors_Is e (Some ErrNonceTooLow) \<and> \<not> errors_Is e (Some ErrNonceTooHigh)
                \<and> \<not> errors_Is e (Some ErrTxTypeNotSupported) \<longrightarrow>
                loopBody c env txset coalescedLogs tx
                  = Some (env1, Shift c txset (tx_from tx) False, coalescedLogs))
           \<and> (\<forall>interrupt k ch gp.
                 LoadInt32 interrupt k = commitInterruptNone \<and> gasPool env = Some gp
                 \<and> \<not> gp < TxGas \<and> Peek c txset = Some tx \<longrightarrow>
                 (\<exists>env' txset' logs'.
                    loopBody c env txset coalescedLogs tx = Some (env', txset', logs')
                    \<and> commitLoop c interrupt k env txset coalescedLogs ch
                        = commitLoop c interrupt (Suc k) env' txset' logs' ch))
           \<and> ((\<forall>it. Peek c it \<noteq> None \<longrightarrow>
                  m (Pop c it) < m it \<and> (\<forall>a b. m (Shift c it a b) < m it)) \<longrightarrow>
                (\<forall>w txset0 interrupt. commitTransactions c w env txset0 interrupt \<noteq> None))"
proof -
  let ?env0 = "env\<lparr>state := Some (Prepare s (tx_hash tx) (tcount env))\<rparr>"
  have "state ?env0 = Some (Prepare s (tx_hash tx) (tcount env))" by simp
  from commitTransaction_returns [OF this, of c tx]
  obtain env1 logs e where ct: "commitTransaction c ?env0 (Some tx) = Some (env1, logs, e)"
    by blast
  note d = loopBody_dispatch [OF assms ct, of txset coalescedLogs]
  have rows:
    "errors_Is e (Some ErrGasLimitReached) \<longrightarrow>
       loopBody c env txset coalescedLogs tx = Some (env1, Pop c txset, coalescedLogs)"
    "\<not> errors_Is e (Some ErrGasLimitReached) \<and> errors_Is e (Some ErrNonceTooLow) \<longrightarrow>
       loopBody c env txset coalescedLogs tx
         = Some (env1, Shift c txset (tx_from tx) False, coalescedLogs)"
    "\<not> errors_Is e (Some ErrGasLimitReached) \<and> \<not> errors_Is e (Some ErrNonceTooLow)
       \<and> errors_Is e (Some ErrNonceTooHigh) \<longrightarrow>
       loopBody c env txset coalescedLogs tx = Some (env1, Pop c txset, coalescedLogs)"
    "e = None \<longrightarrow>
       loopBody c env txset coalescedLogs tx
         = Some (env1\<lparr>tcount := tcount env1 + 1\<rparr>, Shift c txset (tx_from tx) False,
                 coalescedLogs @ logs)"
    "e \<noteq> None \<and> \<not> errors_Is e (Some ErrGasLimitReached)
       \<and> \<not> errors_Is e (Some ErrNonceTooLow) \<and> \<not> errors_Is e (Some ErrNonceTooHigh)
       \<and> errors_Is e (Some ErrTxTypeNotSupported) \<longrightarrow>
       loopBody c env txset coalescedLogs tx = Some (env1, Pop c txset, coalescedLogs)"
    "e \<noteq> None \<and> \<not> errors_Is e (Some ErrGasLimitReached)
       \<and> \<not> errors_Is e (Some ErrNonceTooLow) \<and> \<not> errors_Is e (Some ErrNonceTooHigh)
       \<and> \<not> errors_Is e (Some ErrTxTypeNotSupported) \<longrightarrow>
       loopBody c env txset coalescedLogs tx
         = Some (env1, Shift c txset (tx_from tx) False, coalescedLogs)"
    unfolding d by (cases e; simp)+
  have cont: "\<forall>interrupt k ch gp.
                 LoadInt32 interrupt k = commitInterruptNone \<and> gasPool env = Some gp
                 \<and> \<not> gp < TxGas \<and> Peek c txset = Some tx \<longrightarrow>
                 (\<exists>env' txset' logs'.
                    loopBody c env txset coalescedLogs tx = Some (env', txset', logs')
                    \<and> commitLoop c interrupt k env txset coalescedLogs ch
                        = commitLoop c interrupt (Suc k) env' txset' logs' ch)"
  proof (intro allI impI)
    fix interrupt k ch gp
    assume a: "LoadInt32 interrupt k = commitInterruptNone \<and> gasPool env = Some gp
                 \<and> \<not> gp < TxGas \<and> Peek c txset = Some tx"
    from loopBody_returns [OF assms, of c txset coalescedLogs tx]
    obtain env' txset' logs' where lb: "loopBody c env txset coalescedLogs tx = Some (env', txset', logs')"
      by blast
    have "commitLoop c interrupt k env txset coalescedLogs ch
            = commitLoop c interrupt (Suc k) env' txset' logs' ch"
      using a lb by (subst commitLoop.simps) simp
    with lb show "\<exists>env' txset' logs'.
                    loopBody c env txset coalescedLogs tx = Some (env', txset', logs')
                    \<and> commitLoop c interrupt k env txset coalescedLogs ch
                        = commitLoop c interrupt (Suc k) env' txset' logs' ch"
      by blast
  qed
  have total: "(\<forall>it. Peek c it \<noteq> None \<longrightarrow>
                  m (Pop c it) < m it \<and> (\<forall>a b. m (Shift c it a b) < m it)) \<longrightarrow>
                (\<forall>w txset0 interrupt. commitTransactions c w env txset0 interrupt \<noteq> None)"
  proof (intro allI impI)
    fix w :: "('w, 'f) worker" and txset0 interrupt
    assume dec: "\<forall>it. Peek c it \<noteq> None \<longrightarrow>
                  m (Pop c it) < m it \<and> (\<forall>a b. m (Shift c it a b) < m it)"
    let ?e = "if gasPool env = None then env\<lparr>gasPool := Some (0 + GasLimit (header env))\<rparr> else env"
    have st: "state ?e \<noteq> None" and gp: "gasPool ?e \<noteq> None"
      using assms by auto
    have p: "\<And>it. Peek c it \<noteq> None \<Longrightarrow> m (Pop c it) < m it"
      and sh: "\<And>it a b. Peek c it \<noteq> None \<Longrightarrow> m (Shift c it a b) < m it"
      using dec by auto
    from commitLoop_returns [of c m ?e interrupt 0 txset0 "[]" "resubmitAdjustCh w", OF p sh st gp]
    obtain exit env' txset' logs' ch' where
      r: "commitLoop c interrupt 0 ?e txset0 [] (resubmitAdjustCh w) = Some (exit, env', txset', logs', ch')"
      by blast
    show "commitTransactions c w env txset0 interrupt \<noteq> None"
      unfolding commitTransactions_def Let_def r by (cases exit) simp_all
  qed
  show ?thesis
    by (intro exI [of _ env1] exI [of _ logs] exI [of _ e] conjI ct rows cont total)
qed

lemma sample_body_fail:
  "loopBody sampleCollab sampleEnvGas sampleQueues [] (sampleTx 5 1 7)
     = Some (sampleEnvGas\<lparr>state := Some (sampleState\<lparr>thash := 5\<rparr>)\<rparr>, [[sampleTx 9 2 0]], [])"
  by (simp add: loopBody_def commitTransaction_def sampleEnvGas_def sampleEnv_def sampleCollab_def
      sampleTx_def sampleApply_def sampleState_def sampleHeader_def sampleQueues_def
      Snapshot_def RevertToSnapshot_def Prepare_def)

lemma sample_body_ok:
  "loopBody sampleCollab sampleEnvGas [[sampleTx 9 2 0, sampleTx 10 2 1]] [4] (sampleTx 9 2 0)
     = Some (sampleEnvGas\<lparr>state := Some (sampleState\<lparr>world := 1, validRevisions := [0], thash := 9\<rparr>),
               gasPool := Some 21000, header := sampleHeader\<lparr>GasUsed := 21000\<rparr>,
               txs := [sampleTx 9 2 0],
               receipts := [\<lparr>Status = 1, Logs = [9], Etxs = [sampleTx 9 2 0]\<rparr>],
               etxs := [sampleTx 9 2 0], tcount := 1\<rparr>,
             [[sampleTx 10 2 1]], [4, 9])"
  by (simp add: loopBody_def commitTransaction_def sampleEnvGas_def sampleEnv_def sampleCollab_def
      sampleTx_def sampleApply_def sampleState_def sampleHeader_def sampleShift_def
      Snapshot_def Prepare_def ReceiptStatusSuccessful_def)

theorem C1_dispatch_witness:
  "state sampleEnvGas = Some sampleState
   \<and> loopBody sampleCollab sampleEnvGas sampleQueues [] (sampleTx 5 1 7)
       = Some (sampleEnvGas\<lparr>state := Some (sampleState\<lparr>thash := 5\<rparr>)\<rparr>, [[sampleTx 9 2 0]], [])
   \<and> loopBody sampleCollab sampleEnvGas [[sampleTx 9 2 0, sampleTx 10 2 1]] [4] (sampleTx 9 2 0)
     = Some (sampleEnvGas\<lparr>state := Some (sampleState\<lparr>world := 1, validRevisions := [0], thash := 9\<rparr>),
               gasPool := Some 21000, header := sampleHeader\<lparr>GasUsed := 21000\<rparr>,
               txs := [sampleTx 9 2 0],
               receipts := [\<lparr>Status = 1, Logs = [9], Etxs = [sampleTx 9 2 0]\<rparr>],
               etxs := [sampleTx 9 2 0], tcount := 1\<rparr>,
             [[sampleTx 10 2 1]], [4, 9])
   \<and> commitTransactions sampleCollab sampleWorker sampleEnvGas sampleQueues None \<noteq> None"
proof -
  have st: "state sampleEnvGas = Some sampleState"
    by (simp add: sampleEnvGas_def sampleEnv_def)
  have dec: "\<forall>it. Peek sampleCollab it \<noteq> None \<longrightarrow>
      sampleSize (Pop sampleCollab it) < sampleSize it
      \<and> (\<forall>a b. sampleSize (Shift sampleCollab it a b) < sampleSize it)"
    using sample_pop sample_shift by blast
  from C1_dispatch [OF st, where c=sampleCollab and m=sampleSize and tx="sampleTx 5 1 7"
      and txset=sampleQueues and coalescedLogs="[]"]
  have "(\<forall>it. Peek sampleCollab it \<noteq> None \<longrightarrow>
      sampleSize (Pop sampleCollab it) < sampleSize it
      \<and> (\<forall>a b. sampleSize (Shift sampleCollab it a b) < sampleSize it)) \<longrightarrow>
     (\<forall>w txset0 interrupt. commitTransactions sampleCollab w sampleEnvGas txset0 interrupt \<noteq> None)"
    by (elim exE conjE)
  with dec have "commitTransactions sampleCollab sampleWorker sampleEnvGas sampleQueues None \<noteq> None"
    by blast
  then show ?thesis
    using st sample_body_fail sample_body_ok by simp
qed

section \<open>Properties: new-transaction events\<close>

lemma commitTransactions_newTxs:
  assumes "commitTransactions c w env txset interrupt = Some (r, w', env', txset')"
  shows "newTxs w' = newTxs w \<and> snapshotState w' = snapshotState w"
  using assms
  by (auto simp: commitTransactions_def Let_def split: option.splits loopExit.splits if_splits)

lemma updateSnapshot_newTxs:
  assumes "updateSnapshot c nodeCtx fresh w env = Some (w', fresh')"
  shows "newTxs w' = newTxs w"
  using assms
  by (auto simp: updateSnapshot_def Let_def split: option.splits if_splits)

lemma mainLoop_txsCh_counts:
  assumes "mainLoop_txsCh c nodeCtx fresh w evTxs = Some (w', fresh')"
    and "isRunning w \<or> current w = None
         \<or> (\<exists>cur. current w = Some cur \<and> (gasPool cur = None \<or> (\<exists>gp. gasPool cur = Some gp \<and> \<not> gp < TxGas)))"
  shows "newTxs w' = newTxs w + of_nat (length evTxs)"
proof (cases "isRunning w \<or> current w = None")
  case True
  then have sel: "(if isRunning w then None else current w) = None" by auto
  show ?thesis
    using assms(1) unfolding mainLoop_txsCh_def sel by auto
next
  case False
  then obtain cur where cur: "current w = Some cur" and nr: "\<not> isRunning w" by auto
  then have sel: "(if isRunning w then None else current w) = Some cur" by simp
  from assms(2) cur nr have full: "(case gasPool cur of None \<Rightarrow> False | Some gp \<Rightarrow> gp < TxGas) = False"
    by (auto split: option.splits)
  let ?txset = "NewTransactionsByPriceAndNonce c (bucketBySender evTxs []) (BaseFee (header cur)) False"
  have run: "(case commitTransactions c w cur ?txset None of
                None \<Rightarrow> None
              | Some (r, w1, cur', txset') \<Rightarrow>
                  (case (if tcount cur \<noteq> tcount cur'
                         then updateSnapshot c nodeCtx fresh (w1\<lparr>current := Some cur'\<rparr>) cur'
                         else Some (w1\<lparr>current := Some cur'\<rparr>, fresh)) of
                     None \<Rightarrow> None
                   | Some (w2, fresh') \<Rightarrow>
                       Some (w2\<lparr>newTxs := newTxs w2 + of_nat (length evTxs)\<rparr>, fresh')))
             = Some (w', fresh')"
    using assms(1) unfolding mainLoop_txsCh_def sel by (simp add: full Let_def)
  then obtain r w1 cur' txset' where
    ct: "commitTransactions c w cur ?txset None = Some (r, w1, cur', txset')"
    by (cases "commitTransactions c w cur ?txset None") auto
  from run obtain w2 where
    us: "(if tcount cur \<noteq> tcount cur'
          then updateSnapshot c nodeCtx fresh (w1\<lparr>current := Some cur'\<rparr>) cur'
          else Some (w1\<lparr>current := Some cur'\<rparr>, fresh)) = Some (w2, fresh')"
    and w': "w' = w2\<lparr>newTxs := newTxs w2 + of_nat (length evTxs)\<rparr>"
    unfolding ct by (auto split: option.splits)
  have "newTxs w2 = newTxs w1"
    using us updateSnapshot_newTxs [of c nodeCtx fresh "w1\<lparr>current := Some cur'\<rparr>" cur' w2 fresh']
    by (auto split: if_splits)
  then show ?thesis
    using commitTransactions_newTxs [OF ct] w' by simp
qed

lemma commitLoop_keeps_state:
  fixes c :: "('w, 'it, 'f) collab" and m :: "'it \<Rightarrow> nat"
  assumes pop: "\<And>it. Peek c it \<noteq> None \<Longrightarrow> m (Pop c it) < m it"
    and shift: "\<And>it a b. Peek c it \<noteq> None \<Longrightarrow> m (Shift c it a b) < m it"
    and "state env \<noteq> None"
    and "commitLoop c interrupt k env txset logs ch = Some (exit, env', txset', logs', ch')"
  shows "state env' \<noteq> None"
  using assms(3,4)
proof (induction "m txset" arbitrary: k env txset logs rule: less_induct)
  case less
  obtain s where s: "state env = Some s" using less.prems by auto
  note run = less.prems(2)
  show ?case
  proof (cases "interrupt \<noteq> None \<and> LoadInt32 interrupt k \<noteq> commitInterruptNone")
    case True
    then have "env' = env"
      using run by (subst (asm) commitLoop.simps) (auto split: option.splits if_splits)
    then show ?thesis using s by simp
  next
    case False
    then have q: "LoadInt32 interrupt k = commitInterruptNone"
      by (cases interrupt) auto
    show ?thesis
    proof (cases "gasPool env")
      case None
      then show ?thesis
        using run q by (subst (asm) commitLoop.simps) simp
    next
      case (Some gp)
      show ?thesis
      proof (cases "gp < TxGas \<or> Peek c txset = None")
        case True
        then have "env' = env"
          using run q Some by (subst (asm) commitLoop.simps) (auto split: option.splits if_splits)
        then show ?thesis using s by simp
      next
        case go: False
        then obtain tx where tx: "Peek c txset = Some tx" and gas: "\<not> gp < TxGas" by auto
        from loopBody_returns [OF s, of c txset logs tx]
        obtain env1 txset1 logs1 where lb: "loopBody c env txset logs tx = Some (env1, txset1, logs1)"
          and st1: "state env1 \<noteq> None"
          and nxt: "txset1 = Pop c txset \<or> txset1 = Shift c txset (tx_from tx) False"
          by auto
        have dec: "m txset1 < m txset"
          using nxt pop [of txset] shift [of txset] tx by auto
        have "commitLoop c interrupt (Suc k) env1 txset1 logs1 ch = Some (exit, env', txset', logs', ch')"
          using run q Some gas tx lb by (subst (asm) commitLoop.simps) simp
        then show ?thesis
          by (rule less.hyps [OF dec st1])
      qed
    qed
  qed
qed

lemma commitTransactions_returns:
  fixes c :: "('w, 'it, 'f) collab" and m :: "'it \<Rightarrow> nat"
  assumes pop: "\<And>it. Peek c it \<noteq> None \<Longrightarrow> m (Pop c it) < m it"
    and shift: "\<And>it a b. Peek c it \<noteq> None \<Longrightarrow> m (Shift c it a b) < m it"
    and "state env \<noteq> None"
  shows "\<exists>r w' env' txset'. commitTransactions c w env txset interrupt = Some (r, w', env', txset')
           \<and> state env' \<noteq> None"
proof -
  let ?e = "if gasPool env = None then env\<lparr>gasPool := Some (0 + GasLimit (header env))\<rparr> else env"
  have st: "state ?e \<noteq> None" and gp: "gasPool ?e \<noteq> None"
    using assms(3) by auto
  from commitLoop_returns [of c m ?e interrupt 0 txset "[]" "resubmitAdjustCh w", OF pop shift st gp]
  obtain exit env' txset' logs' ch' where
    r: "commitLoop c interrupt 0 ?e txset [] (resubmitAdjustCh w) = Some (exit, env', txset', logs', ch')"
    by blast
  have "state env' \<noteq> None"
    by (rule commitLoop_keeps_state [of c m, OF pop shift st r])
  then show ?thesis
    unfolding commitTransactions_def Let_def r by (cases exit) auto
qed

text \<open>
  Claim C8, as the code has it. Provided the iterator shrinks on every \<open>Pop\<close> and \<open>Shift\<close> and
  the current environment, when there is one, has a state, the arm for a new-transactions event
  completes, and it adds the number of transactions of the event (as an \<^verbatim>\<open>int32\<close>) to \<open>newTxs\<close>,
  whether the worker is running or not and whether there is a current environment or not, with
  one exception: when the worker is not running and the gas pool of the current environment is
  below \<open>TxGas\<close>, the event is ignored and \<open>newTxs\<close> is left as it was.
\<close>

theorem C8_newTxs:
  fixes c :: "('w, 'it, 'f) collab" and m :: "'it \<Rightarrow> nat" and w :: "('w, 'f) worker"
  assumes pop: "\<And>it. Peek c it \<noteq> None \<Longrightarrow> m (Pop c it) < m it"
    and shift: "\<And>it a b. Peek c it \<noteq> None \<Longrightarrow> m (Shift c it a b) < m it"
    and st: "\<And>cur. current w = Some cur \<Longrightarrow> state cur \<noteq> None"
  shows "\<exists>w' fresh'. mainLoop_txsCh c nodeCtx fresh w evTxs = Some (w', fresh')
           \<and> newTxs w' =
               (if \<not> isRunning w
                   \<and> (\<exists>cur gp. current w = Some cur \<and> gasPool cur = Some gp \<and> gp < TxGas)
                then newTxs w
                else newTxs w + of_nat (length evTxs))"
proof (cases "isRunning w \<or> current w = None")
  case True
  then have sel: "(if isRunning w then None else current w) = None" by auto
  show ?thesis
    unfolding mainLoop_txsCh_def sel using True by auto
next
  case False
  then obtain cur where cur: "current w = Some cur" and nr: "\<not> isRunning w" by auto
  then have sel: "(if isRunning w then None else current w) = Some cur" by simp
  show ?thesis
  proof (cases "\<exists>gp. gasPool cur = Some gp \<and> gp < TxGas")
    case True
    then have "mainLoop_txsCh c nodeCtx fresh w evTxs = Some (w, fresh)"
      unfolding mainLoop_txsCh_def sel by auto
    then show ?thesis
      using True cur nr by auto
  next
    case notfull: False
    let ?txset = "NewTransactionsByPriceAndNonce c (bucketBySender evTxs []) (BaseFee (header cur)) False"
    from commitTransactions_returns [of c m cur w ?txset None, OF pop shift st [OF cur]]
    obtain r w1 cur' txset' where
      ct: "commitTransactions c w cur ?txset None = Some (r, w1, cur', txset')"
      and st': "state cur' \<noteq> None" by blast
    have "\<exists>w2 fresh'. updateSnapshot c nodeCtx fresh (w1\<lparr>current := Some cur'\<rparr>) cur'
                          = Some (w2, fresh')"
      using st' by (cases "nodeCtx = ZONE_CTX") (auto simp: updateSnapshot_def Let_def)
    then obtain w2 fresh' where
      us: "(if tcount cur \<noteq> tcount cur'
            then updateSnapshot c nodeCtx fresh (w1\<lparr>current := Some cur'\<rparr>) cur'
            else Some (w1\<lparr>current := Some cur'\<rparr>, fresh)) = Some (w2, fresh')"
      by (cases "tcount cur \<noteq> tcount cur'") auto
    have run: "mainLoop_txsCh c nodeCtx fresh w evTxs
                 = Some (w2\<lparr>newTxs := newTxs w2 + of_nat (length evTxs)\<rparr>, fresh')"
      using notfull us unfolding mainLoop_txsCh_def sel
      by (auto simp: Let_def ct split: option.splits)
    have "newTxs w2 + of_nat (length evTxs) = newTxs w + of_nat (length evTxs)"
      using mainLoop_txsCh_counts [OF run] cur nr notfull by (cases "gasPool cur") auto
    then show ?thesis
      using run notfull cur nr by auto
  qed
qed

text \<open>
  Claim C8 as stated fails. The worker is not running, its current environment has a gas pool
  of 20999, below \<open>TxGas\<close>, and the event carries three transactions: the arm leaves by
  \<^verbatim>\<open>continue\<close> and the worker, with its \<open>newTxs\<close> counter, is unchanged.
\<close>

theorem C8_newTxs_counterexample:
  "\<not> isRunning sampleWorkerFull
   \<and> current sampleWorkerFull = Some (sampleEnv\<lparr>gasPool := Some 20999\<rparr>)
   \<and> length sampleEvent = 3
   \<and> newTxs sampleWorkerFull = 0
   \<and> mainLoop_txsCh sampleCollab ZONE_CTX 0 sampleWorkerFull sampleEvent = Some (sampleWorkerFull, 0)"
  by (simp add: mainLoop_txsCh_def sampleWorkerFull_def sampleWorker_def sampleEvent_def
      isRunning_def TxGas_def)

theorem C8_newTxs_witness:
  "mainLoop_txsCh sampleCollab ZONE_CTX 0 (sampleWorker\<lparr>current := Some sampleEnv\<rparr>) sampleEvent \<noteq> None
   \<and> map_option (\<lambda>r. newTxs (fst r))
        (mainLoop_txsCh sampleCollab ZONE_CTX 0 (sampleWorker\<lparr>current := Some sampleEnv\<rparr>) sampleEvent)
       = Some 3
   \<and> map_option (\<lambda>r. newTxs (fst r))
        (mainLoop_txsCh sampleCollab ZONE_CTX 0 sampleWorkerFull sampleEvent) = Some 0
   \<and> map_option (\<lambda>r. newTxs (fst r))
        (mainLoop_txsCh sampleCollab ZONE_CTX 0 sampleWorker sampleEvent) = Some 3"
proof -
  have st: "\<And>cur. current (sampleWorker\<lparr>current := Some sampleEnv\<rparr>) = Some cur \<Longrightarrow> state cur \<noteq> None"
    "\<And>cur. current sampleWorkerFull = Some cur \<Longrightarrow> state cur \<noteq> None"
    "\<And>cur. current sampleWorker = Some cur \<Longrightarrow> state cur \<noteq> None"
    by (auto simp: sampleEnv_def sampleWorkerFull_def sampleWorker_def)
  have facts: "\<not> isRunning (sampleWorker\<lparr>current := Some sampleEnv\<rparr>)"
    "gasPool sampleEnv = None" "newTxs sampleWorker = 0" "length sampleEvent = 3"
    "\<not> isRunning sampleWorkerFull" "current sampleWorkerFull = Some (sampleEnv\<lparr>gasPool := Some 20999\<rparr>)"
    "newTxs sampleWorkerFull = 0" "(20999 :: u64) < TxGas" "current sampleWorker = None"
    by (simp_all add: sampleEnv_def sampleWorkerFull_def sampleWorker_def isRunning_def
        sampleEvent_def TxGas_def)
  show ?thesis
    using C8_newTxs [of sampleCollab sampleSize "sampleWorker\<lparr>current := Some sampleEnv\<rparr>"
        ZONE_CTX 0 sampleEvent, OF sample_pop sample_shift st(1)]
      C8_newTxs [of sampleCollab sampleSize sampleWorkerFull ZONE_CTX 0 sampleEvent,
        OF sample_pop sample_shift st(2)]
      C8_newTxs [of sampleCollab sampleSize sampleWorker ZONE_CTX 0 sampleEvent,
        OF sample_pop sample_shift st(3)]
    by (auto simp: facts)
qed

section \<open>Properties: the snapshot\<close>

text \<open>
  Claim C10, as the code has it. While \<open>snapshotState\<close> is nil, \<^verbatim>\<open>pending\<close> returns (nil, nil);
  \<^verbatim>\<open>pendingBlock\<close> and \<^verbatim>\<open>pendingBlockAndReceipts\<close> return the snapshot block and receipts as
  they are, without a guard. When \<open>snapshotState\<close> is set, \<^verbatim>\<open>pending\<close> returns the snapshot block
  with a copy of the state: a new object with the same world. In the zone context
  \<^verbatim>\<open>updateSnapshot\<close> sets the block, the receipts and a copy of the environment's state, and
  \<^verbatim>\<open>pending\<close> then returns that block with a copy of the snapshot state. In the other contexts
  \<^verbatim>\<open>updateSnapshot\<close> sets the block only and leaves \<open>snapshotState\<close> and \<open>snapshotReceipts\<close> as they
  were, so \<^verbatim>\<open>pending\<close> goes on returning (nil, nil) when the state was nil.
\<close>

theorem C10_pending:
  "(snapshotState w = None \<longrightarrow> pending fresh w = ((None, None), fresh))
   \<and> pendingBlock w = snapshotBlock w
   \<and> pendingBlockAndReceipts w = (snapshotBlock w, snapshotReceipts w)
   \<and> (\<forall>ss. snapshotState w = Some ss \<longrightarrow>
         pending fresh w = ((snapshotBlock w, Some (Copy fresh ss)), Suc fresh)
         \<and> world (Copy fresh ss) = world ss
         \<and> (objId ss < fresh \<longrightarrow> objId (Copy fresh ss) \<noteq> objId ss))
   \<and> (\<forall>s. state env = Some s \<longrightarrow>
         (\<exists>w'. updateSnapshot c ZONE_CTX fresh w env = Some (w', Suc fresh)
            \<and> snapshotBlock w' = Some (NewBlock c (header env) (txs env) (unclelist env) (etxs env)
                                       (subManifest env) (receipts env))
            \<and> snapshotReceipts w' = Some (receipts env)
            \<and> snapshotState w' = Some (Copy fresh s)
            \<and> pending (Suc fresh) w'
                 = ((snapshotBlock w', Some (Copy (Suc fresh) (Copy fresh s))), Suc (Suc fresh))
            \<and> world (Copy (Suc fresh) (Copy fresh s)) = world s
            \<and> objId (Copy (Suc fresh) (Copy fresh s)) \<noteq> objId (Copy fresh s)))
   \<and> (nodeCtx \<noteq> ZONE_CTX \<longrightarrow>
         (\<exists>w'. updateSnapshot c nodeCtx fresh w env = Some (w', fresh)
            \<and> snapshotBlock w' = Some (NewBlock c (header env) (txs env) (unclelist env) (etxs env)
                                       (subManifest env) (receipts env))
            \<and> snapshotReceipts w' = snapshotReceipts w
            \<and> snapshotState w' = snapshotState w
            \<and> (snapshotState w = None \<longrightarrow> pending fresh w' = ((None, None), fresh))))"
  by (simp add: pending_def pendingBlock_def pendingBlockAndReceipts_def updateSnapshot_def
      Copy_def copyReceipts_def Let_def)

text \<open>
  Claim C10 as stated fails: in the prime context, after \<^verbatim>\<open>updateSnapshot\<close> on a fresh worker,
  \<open>snapshotState\<close> is still nil, \<^verbatim>\<open>pending\<close> returns (nil, nil) and not the snapshot block, and
  \<^verbatim>\<open>pendingBlock\<close> returns a block that is not nil.
\<close>

theorem C10_pending_counterexample:
  "updateSnapshot sampleCollab PRIME_CTX 0 sampleWorker samplePrimeEnv
     = Some (sampleWorker\<lparr>snapshotBlock := Some sampleSnapshotBlock\<rparr>, 0)
   \<and> pending 0 (sampleWorker\<lparr>snapshotBlock := Some sampleSnapshotBlock\<rparr>) = ((None, None), 0)
   \<and> pendingBlock (sampleWorker\<lparr>snapshotBlock := Some sampleSnapshotBlock\<rparr>)
       = Some sampleSnapshotBlock"
  by (simp add: updateSnapshot_def pending_def pendingBlock_def sampleWorker_def samplePrimeEnv_def
      sampleEnv_def sampleCollab_def sampleSnapshotBlock_def unclelist_def Let_def)

theorem C10_pending_witness:
  "snapshotState sampleWorker = None
   \<and> pending 0 sampleWorker = ((None, None), 0)
   \<and> state sampleEnv = Some sampleState
   \<and> updateSnapshot sampleCollab ZONE_CTX 1 sampleWorker sampleEnv
       = Some (sampleWorker\<lparr>snapshotBlock := Some sampleSnapshotBlock,
                 snapshotReceipts := Some [], snapshotState := Some (sampleState\<lparr>objId := 1\<rparr>)\<rparr>, 2)
   \<and> pending 2 (sampleWorker\<lparr>snapshotBlock := Some sampleSnapshotBlock,
                 snapshotReceipts := Some [], snapshotState := Some (sampleState\<lparr>objId := 1\<rparr>)\<rparr>)
       = ((Some sampleSnapshotBlock, Some (sampleState\<lparr>objId := 2\<rparr>)), 3)
   \<and> PRIME_CTX \<noteq> ZONE_CTX"
proof -
  have a: "snapshotState sampleWorker = None" "state sampleEnv = Some sampleState"
    by (simp_all add: sampleWorker_def sampleEnv_def)
  have b: "NewBlock sampleCollab (header sampleEnv) (txs sampleEnv) (unclelist sampleEnv)
             (etxs sampleEnv) (subManifest sampleEnv) [] = sampleSnapshotBlock"
    "receipts sampleEnv = []"
    by (simp_all add: sampleCollab_def sampleEnv_def unclelist_def sampleSnapshotBlock_def)
  have u: "updateSnapshot sampleCollab ZONE_CTX 1 sampleWorker sampleEnv
       = Some (sampleWorker\<lparr>snapshotBlock := Some sampleSnapshotBlock,
                 snapshotReceipts := Some [], snapshotState := Some (sampleState\<lparr>objId := 1\<rparr>)\<rparr>, 2)"
    by (simp add: updateSnapshot_def a b Copy_def copyReceipts_def)
  show ?thesis
    using C10_pending [of sampleWorker 0 sampleEnv sampleCollab PRIME_CTX]
      C10_pending [of sampleWorker 1 sampleEnv sampleCollab PRIME_CTX] a u
    by (simp add: pending_def Copy_def)
qed

section \<open>Properties: finalize, assemble, broadcast\<close>

text \<open>
  Claim C5. When the engine assembles a block, the block \<^verbatim>\<open>FinalizeAssembleAndBroadcast\<close> returns
  is that block with the manifest hash of its header set to \<open>DeriveSha\<close> of the empty manifest in
  the prime context, of \<open>[parent.hash]\<close> when the parent is dom-coincident, and otherwise of
  \<open>CollectBlockManifest(parent.header)\<close> followed by \<open>header.parentHash\<close>; in the zone context the
  etx rollup hash is set as well, to \<open>DeriveSha\<close> of the parent's external transactions when the
  parent is dom-coincident and otherwise of \<open>CollectEtxRollup(parent)\<close> followed by them; outside
  the zone context the etx rollup hash is the one the engine left. An error of either collector is
  returned and the worker is unchanged; on success the body is registered in the pending-body
  cache.
\<close>

theorem C5_FinalizeAssembleAndBroadcast:
  assumes "FinalizeAndAssemble c h st ts us es sm rs = Inr block"
  shows
   "(nodeCtx = PRIME_CTX \<longrightarrow>
       snd (FinalizeAssembleAndBroadcast c nodeCtx w h parent st ts us es sm rs)
         = Inr (block\<lparr>blockHeader := (blockHeader block)
                  \<lparr>ManifestHash := DeriveShaManifest c []\<rparr>\<rparr>))
    \<and> (nodeCtx = REGION_CTX \<and> IsDomCoincident c (blockHeader parent) \<longrightarrow>
       snd (FinalizeAssembleAndBroadcast c nodeCtx w h parent st ts us es sm rs)
         = Inr (block\<lparr>blockHeader := (blockHeader block)
                  \<lparr>ManifestHash := DeriveShaManifest c [Hash c (blockHeader parent)]\<rparr>\<rparr>))
    \<and> (\<forall>manifest. nodeCtx = REGION_CTX \<and> \<not> IsDomCoincident c (blockHeader parent)
          \<and> CollectBlockManifest c (blockHeader parent) = Inr manifest \<longrightarrow>
       snd (FinalizeAssembleAndBroadcast c nodeCtx w h parent st ts us es sm rs)
         = Inr (block\<lparr>blockHeader := (blockHeader block)
                  \<lparr>ManifestHash := DeriveShaManifest c (manifest @ [ParentHash h])\<rparr>\<rparr>))
    \<and> (nodeCtx = ZONE_CTX \<and> IsDomCoincident c (blockHeader parent) \<longrightarrow>
       snd (FinalizeAssembleAndBroadcast c nodeCtx w h parent st ts us es sm rs)
         = Inr (block\<lparr>blockHeader := (blockHeader block)
                  \<lparr>ManifestHash := DeriveShaManifest c [Hash c (blockHeader parent)],
                   EtxRollupHash := DeriveShaTxs c (ExtTransactions (blockBody parent))\<rparr>\<rparr>))
    \<and> (\<forall>manifest etxRollup. nodeCtx = ZONE_CTX \<and> \<not> IsDomCoincident c (blockHeader parent)
          \<and> CollectBlockManifest c (blockHeader parent) = Inr manifest
          \<and> CollectEtxRollup c parent = Inr etxRollup \<longrightarrow>
       snd (FinalizeAssembleAndBroadcast c nodeCtx w h parent st ts us es sm rs)
         = Inr (block\<lparr>blockHeader := (blockHeader block)
                  \<lparr>ManifestHash := DeriveShaManifest c (manifest @ [ParentHash h]),
                   EtxRollupHash :=
                     DeriveShaTxs c (etxRollup @ ExtTransactions (blockBody parent))\<rparr>\<rparr>))
    \<and> (\<forall>e. nodeCtx \<noteq> PRIME_CTX \<and> \<not> IsDomCoincident c (blockHeader parent)
          \<and> CollectBlockManifest c (blockHeader parent) = Inl e \<longrightarrow>
       FinalizeAssembleAndBroadcast c nodeCtx w h parent st ts us es sm rs = (w, Inl e))
    \<and> (\<forall>manifest e. nodeCtx = ZONE_CTX \<and> \<not> IsDomCoincident c (blockHeader parent)
          \<and> CollectBlockManifest c (blockHeader parent) = Inr manifest
          \<and> CollectEtxRollup c parent = Inl e \<longrightarrow>
       FinalizeAssembleAndBroadcast c nodeCtx w h parent st ts us es sm rs = (w, Inl e))
    \<and> (\<forall>b. snd (FinalizeAssembleAndBroadcast c nodeCtx w h parent st ts us es sm rs) = Inr b \<longrightarrow>
         fst (FinalizeAssembleAndBroadcast c nodeCtx w h parent st ts us es sm rs)
           = AddPendingBlockBody c w (blockHeader b) (blockBody b)
         \<and> (nodeCtx \<noteq> ZONE_CTX \<longrightarrow>
              EtxRollupHash (blockHeader b) = EtxRollupHash (blockHeader block)))"
proof -
  have last: "\<forall>b. snd (FinalizeAssembleAndBroadcast c nodeCtx w h parent st ts us es sm rs) = Inr b \<longrightarrow>
         fst (FinalizeAssembleAndBroadcast c nodeCtx w h parent st ts us es sm rs)
           = AddPendingBlockBody c w (blockHeader b) (blockBody b)
         \<and> (nodeCtx \<noteq> ZONE_CTX \<longrightarrow>
              EtxRollupHash (blockHeader b) = EtxRollupHash (blockHeader block))"
    by (auto simp: FinalizeAssembleAndBroadcast_def assms Let_def split: sum.splits if_splits)
  show ?thesis
    by (intro conjI last)
      (auto simp: FinalizeAssembleAndBroadcast_def assms Let_def manifestOf_def etxRollupOf_def)
qed

theorem C5_FinalizeAssembleAndBroadcast_witness:
  "snd (FinalizeAssembleAndBroadcast sampleCollab ZONE_CTX sampleWorker sampleHeader (blockAt 11 10)
          (Some sampleState) [] [] [] [] [])
     = Inr (sampleSnapshotBlock\<lparr>blockHeader := sampleHeader\<lparr>ManifestHash := 28, EtxRollupHash := 3\<rparr>\<rparr>)
   \<and> snd (FinalizeAssembleAndBroadcast sampleCollab REGION_CTX sampleWorker sampleHeader (blockAt 10 9)
          None [] [] [] [] [])
     = Inr (sampleSnapshotBlock\<lparr>blockHeader := sampleHeader\<lparr>ManifestHash := 1016\<rparr>\<rparr>)
   \<and> snd (FinalizeAssembleAndBroadcast sampleCollab PRIME_CTX sampleWorker sampleHeader (blockAt 10 9)
          None [] [] [] [] [])
     = Inr (sampleSnapshotBlock\<lparr>blockHeader := sampleHeader\<lparr>ManifestHash := 7\<rparr>\<rparr>)"
proof -
  have fa: "\<And>st. FinalizeAndAssemble sampleCollab sampleHeader st [] [] [] [] [] = Inr sampleSnapshotBlock"
    by (simp add: sampleCollab_def sampleSnapshotBlock_def)
  have facts: "\<not> IsDomCoincident sampleCollab (blockHeader (blockAt 11 10))"
    "CollectBlockManifest sampleCollab (blockHeader (blockAt 11 10)) = Inr [10]"
    "CollectEtxRollup sampleCollab (blockAt 11 10) = Inr []"
    "IsDomCoincident sampleCollab (blockHeader (blockAt 10 9))"
    "Hash sampleCollab (blockHeader (blockAt 10 9)) = 1009"
    "ParentHash sampleHeader = 11"
    "ExtTransactions (blockBody (blockAt 11 10)) = []"
    "DeriveShaManifest sampleCollab [10, 11] = 28" "DeriveShaManifest sampleCollab [1009] = 1016"
    "DeriveShaManifest sampleCollab [] = 7" "DeriveShaTxs sampleCollab [] = 3"
    "blockHeader sampleSnapshotBlock = sampleHeader"
    by (simp_all add: sampleCollab_def blockAt_def headerAt_def sampleHeader_def sampleSnapshotBlock_def)
  show ?thesis
    using C5_FinalizeAssembleAndBroadcast [OF fa, of ZONE_CTX sampleWorker "blockAt 11 10"]
      C5_FinalizeAssembleAndBroadcast [OF fa, of REGION_CTX sampleWorker "blockAt 10 9"]
      C5_FinalizeAssembleAndBroadcast [OF fa, of PRIME_CTX sampleWorker "blockAt 10 9"]
      facts
    by simp
qed

section \<open>Properties: persisting the pending-body cache\<close>

lemma storeLoop_all:
  assumes "distinct (map fst (items cache))" and "set todo \<subseteq> set (items cache)"
    and "distinct (map fst todo)"
  shows "storeLoop e cache (map fst todo) (ks, db)
           = (ks @ map fst todo,
              db\<lparr>pbBodies := (\<lambda>k. case map_of todo k of
                                      Some v \<Rightarrow> if k \<noteq> e then Some v else pbBodies db k
                                    | None \<Rightarrow> pbBodies db k)\<rparr>)"
  using assms(2,3)
proof (induction todo arbitrary: ks db)
  case Nil
  then show ?case by simp
next
  case (Cons kv todo)
  obtain k v where kv: "kv = (k, v)" by (cases kv)
  have peek: "lru_Peek cache k = Some v"
    using Cons.prems(1) assms(1) by (simp add: lru_Peek_def kv)
  have notin: "map_of todo k = None"
    using Cons.prems(2) by (simp add: kv map_of_eq_None_iff)
  have sub: "set todo \<subseteq> set (items cache)" and d: "distinct (map fst todo)"
    using Cons.prems by auto
  let ?db = "if k \<noteq> e then WritePbCacheBody db k v else db"
  have f: "(\<lambda>x. case map_of todo x of
                  None \<Rightarrow> pbBodies ?db x
                | Some v' \<Rightarrow> if x \<noteq> e then Some v' else pbBodies ?db x)
          = (\<lambda>x. case map_of (kv # todo) x of
                  None \<Rightarrow> pbBodies db x
                | Some v' \<Rightarrow> if x \<noteq> e then Some v' else pbBodies db x)"
    using notin by (auto simp: fun_eq_iff kv WritePbCacheBody_def split: option.splits)
  have "storeLoop e cache (map fst (kv # todo)) (ks, db)
          = storeLoop e cache (map fst todo) (ks @ [k], ?db)"
    using peek by (simp add: kv)
  also have "\<dots> = ((ks @ [k]) @ map fst todo,
        ?db\<lparr>pbBodies := (\<lambda>x. case map_of todo x of
                  None \<Rightarrow> pbBodies ?db x
                | Some v' \<Rightarrow> if x \<noteq> e then Some v' else pbBodies ?db x)\<rparr>)"
    by (rule Cons.IH [OF sub d])
  also have "\<dots> = (ks @ map fst (kv # todo),
        db\<lparr>pbBodies := (\<lambda>x. case map_of (kv # todo) x of
                  None \<Rightarrow> pbBodies db x
                | Some v' \<Rightarrow> if x \<noteq> e then Some v' else pbBodies db x)\<rparr>)"
    unfolding f by (simp add: kv WritePbCacheBody_def)
  finally show ?case .
qed

lemma loadLoop_same:
  assumes "distinct (map fst (todo @ dn))"
    and "\<forall>kv \<in> set todo. fst kv \<noteq> e \<longrightarrow> pbBodies db (fst kv) = Some (snd kv)"
  shows "loadLoop e (map fst todo) (cache\<lparr>items := todo @ dn\<rparr>, db)
           = (cache\<lparr>items := dn @ map (rehydrate e) todo\<rparr>,
              db\<lparr>pbBodies := (\<lambda>k. if k \<in> fst ` set todo then None else pbBodies db k)\<rparr>)"
  using assms
proof (induction todo arbitrary: dn db)
  case Nil
  then show ?case by simp
next
  case (Cons kv todo)
  obtain k v where kv: "kv = (k, v)" by (cases kv)
  let ?v = "if k = e then Some emptyBody else ReadPbCacheBody db k"
  have rd: "(k, ?v) = rehydrate e (k, v)"
    using Cons.prems(2) by (auto simp: kv rehydrate_def ReadPbCacheBody_def)
  have fresh: "k \<notin> fst ` set (todo @ dn)"
    using Cons.prems(1) by (auto simp: kv)
  have add: "lru_Add (cache\<lparr>items := (kv # todo) @ dn\<rparr>) k ?v
               = cache\<lparr>items := todo @ (dn @ [rehydrate e (k, v)])\<rparr>"
    using fresh by (simp add: lru_Add_def lru_Keys_def kv rd [symmetric] del: set_append)
  have d: "distinct (map fst (todo @ (dn @ [rehydrate e (k, v)])))"
    using Cons.prems(1) by (auto simp: kv rehydrate_def)
  have h: "\<forall>kv \<in> set todo. fst kv \<noteq> e \<longrightarrow> pbBodies (DeletePbCacheBody db k) (fst kv) = Some (snd kv)"
    using Cons.prems by (auto simp: kv DeletePbCacheBody_def)
  have f: "(\<lambda>x. if x \<in> fst ` set todo then None else pbBodies (DeletePbCacheBody db k) x)
            = (\<lambda>x. if x \<in> fst ` set (kv # todo) then None else pbBodies db x)"
    by (auto simp: fun_eq_iff kv DeletePbCacheBody_def)
  have "loadLoop e (map fst (kv # todo)) (cache\<lparr>items := (kv # todo) @ dn\<rparr>, db)
          = loadLoop e (map fst todo)
              (cache\<lparr>items := todo @ (dn @ [rehydrate e (k, v)])\<rparr>, DeletePbCacheBody db k)"
    using add by (simp add: kv)
  also have "\<dots> = (cache\<lparr>items := (dn @ [rehydrate e (k, v)]) @ map (rehydrate e) todo\<rparr>,
        (DeletePbCacheBody db k)\<lparr>pbBodies :=
           (\<lambda>x. if x \<in> fst ` set todo then None else pbBodies (DeletePbCacheBody db k) x)\<rparr>)"
    by (rule Cons.IH [OF d h])
  also have "\<dots> = (cache\<lparr>items := dn @ map (rehydrate e) (kv # todo)\<rparr>,
        db\<lparr>pbBodies := (\<lambda>x. if x \<in> fst ` set (kv # todo) then None else pbBodies db x)\<rparr>)"
    unfolding f by (simp add: kv DeletePbCacheBody_def)
  finally show ?case .
qed

lemma loadLoop_fresh:
  assumes "distinct (map fst (dn @ todo))"
    and "length (dn @ todo) \<le> lruSize cache"
    and "\<forall>kv \<in> set todo. fst kv \<noteq> e \<longrightarrow> pbBodies db (fst kv) = Some (snd kv)"
  shows "loadLoop e (map fst todo) (cache\<lparr>items := dn\<rparr>, db)
           = (cache\<lparr>items := dn @ map (rehydrate e) todo\<rparr>,
              db\<lparr>pbBodies := (\<lambda>k. if k \<in> fst ` set todo then None else pbBodies db k)\<rparr>)"
  using assms
proof (induction todo arbitrary: dn db)
  case Nil
  then show ?case by simp
next
  case (Cons kv todo)
  obtain k v where kv: "kv = (k, v)" by (cases kv)
  let ?v = "if k = e then Some emptyBody else ReadPbCacheBody db k"
  have rd: "(k, ?v) = rehydrate e (k, v)"
    using Cons.prems(3) by (auto simp: kv rehydrate_def ReadPbCacheBody_def)
  have fresh: "k \<notin> fst ` set dn"
    using Cons.prems(1) by (auto simp: kv)
  have len: "\<not> lruSize cache < Suc (length dn)"
    using Cons.prems(2) by simp
  have add: "lru_Add (cache\<lparr>items := dn\<rparr>) k ?v = cache\<lparr>items := dn @ [rehydrate e (k, v)]\<rparr>"
    using fresh len by (simp add: lru_Add_def lru_Keys_def rd [symmetric] Let_def)
  have d: "distinct (map fst ((dn @ [rehydrate e (k, v)]) @ todo))"
    using Cons.prems(1) by (auto simp: kv rehydrate_def)
  have l: "length ((dn @ [rehydrate e (k, v)]) @ todo) \<le> lruSize cache"
    using Cons.prems(2) by simp
  have h: "\<forall>kv \<in> set todo. fst kv \<noteq> e \<longrightarrow> pbBodies (DeletePbCacheBody db k) (fst kv) = Some (snd kv)"
    using Cons.prems by (auto simp: kv DeletePbCacheBody_def)
  have f: "(\<lambda>x. if x \<in> fst ` set todo then None else pbBodies (DeletePbCacheBody db k) x)
            = (\<lambda>x. if x \<in> fst ` set (kv # todo) then None else pbBodies db x)"
    by (auto simp: fun_eq_iff kv DeletePbCacheBody_def)
  have "loadLoop e (map fst (kv # todo)) (cache\<lparr>items := dn\<rparr>, db)
          = loadLoop e (map fst todo)
              (cache\<lparr>items := dn @ [rehydrate e (k, v)]\<rparr>, DeletePbCacheBody db k)"
    using add by (simp add: kv)
  also have "\<dots> = (cache\<lparr>items := (dn @ [rehydrate e (k, v)]) @ map (rehydrate e) todo\<rparr>,
        (DeletePbCacheBody db k)\<lparr>pbBodies :=
           (\<lambda>x. if x \<in> fst ` set todo then None else pbBodies (DeletePbCacheBody db k) x)\<rparr>)"
    by (rule Cons.IH [OF d l h])
  also have "\<dots> = (cache\<lparr>items := dn @ map (rehydrate e) (kv # todo)\<rparr>,
        db\<lparr>pbBodies := (\<lambda>x. if x \<in> fst ` set (kv # todo) then None else pbBodies db x)\<rparr>)"
    unfolding f by (simp add: kv DeletePbCacheBody_def)
  finally show ?case .
qed

lemma Store_db:
  assumes "distinct (lru_Keys (pendingBlockBody w))"
  shows "StorePendingBlockBody c w
           = w\<lparr>workerDb := (workerDb w)
                \<lparr>pbBodies := (\<lambda>k. case map_of (items (pendingBlockBody w)) k of
                                     Some v \<Rightarrow> if k \<noteq> EmptyBodyHash c then Some v
                                               else pbBodies (workerDb w) k
                                   | None \<Rightarrow> pbBodies (workerDb w) k),
                 pbBodyKeys := Some (lru_Keys (pendingBlockBody w))\<rparr>\<rparr>"
proof -
  have d: "distinct (map fst (items (pendingBlockBody w)))"
    using assms by (simp add: lru_Keys_def)
  show ?thesis
    unfolding StorePendingBlockBody_def lru_Keys_def
      storeLoop_all [OF d subset_refl d, of "EmptyBodyHash c" "[]" "workerDb w"]
    by (simp add: WritePbBodyKeys_def)
qed

lemma stored_bodies:
  assumes "distinct (map fst its)"
  shows "\<forall>kv \<in> set its. fst kv \<noteq> e \<longrightarrow>
           (case map_of its (fst kv) of Some v \<Rightarrow> if fst kv \<noteq> e then Some v else old (fst kv)
            | None \<Rightarrow> old (fst kv)) = Some (snd kv)"
  using assms by auto

lemma Load_after_Store:
  fixes w :: "('w, 'f) worker" and w0 :: "('w, 'f) worker"
  assumes d: "distinct (lru_Keys (pendingBlockBody w))"
    and tgt: "pendingBlockBody w0 = pendingBlockBody w
              \<or> (pendingBlockBody w0 = lru_New (lruSize (pendingBlockBody w))
                  \<and> length (items (pendingBlockBody w)) \<le> lruSize (pendingBlockBody w))"
  shows "LoadPendingBlockBody c (w0\<lparr>workerDb := workerDb (StorePendingBlockBody c w)\<rparr>)
           = w0\<lparr>pendingBlockBody := (pendingBlockBody w)
                   \<lparr>items := map (rehydrate (EmptyBodyHash c)) (items (pendingBlockBody w))\<rparr>,
                 workerDb := (workerDb w)
                   \<lparr>pbBodyKeys := Some (lru_Keys (pendingBlockBody w)),
                    pbBodies := (\<lambda>k. if k \<in> set (lru_Keys (pendingBlockBody w)) then None
                                      else pbBodies (workerDb w) k)\<rparr>\<rparr>"
proof -
  let ?cache = "pendingBlockBody w"
  let ?its = "items ?cache"
  let ?e = "EmptyBodyHash c"
  let ?G = "\<lambda>k. case map_of ?its k of
                   Some v \<Rightarrow> if k \<noteq> ?e then Some v else pbBodies (workerDb w) k
                 | None \<Rightarrow> pbBodies (workerDb w) k"
  let ?db1 = "(workerDb w)\<lparr>pbBodies := ?G, pbBodyKeys := Some (lru_Keys ?cache)\<rparr>"
  have di: "distinct (map fst ?its)" using d by (simp add: lru_Keys_def)
  have db1: "workerDb (StorePendingBlockBody c w) = ?db1"
    by (simp add: Store_db [OF d])
  have keys: "ReadPbBodyKeys ?db1 = map fst ?its"
    by (simp add: ReadPbBodyKeys_def lru_Keys_def)
  have h: "\<forall>kv \<in> set ?its. fst kv \<noteq> ?e \<longrightarrow> pbBodies ?db1 (fst kv) = Some (snd kv)"
    using stored_bodies [OF di, of ?e "pbBodies (workerDb w)"] by simp
  have final: "(\<lambda>k. if k \<in> fst ` set ?its then None else pbBodies ?db1 k)
                 = (\<lambda>k. if k \<in> set (lru_Keys ?cache) then None else pbBodies (workerDb w) k)"
    by (auto simp: fun_eq_iff lru_Keys_def split: option.splits dest: map_of_SomeD intro: rev_image_eqI)
  have loop: "loadLoop ?e (map fst ?its) (pendingBlockBody w0, ?db1)
                = (?cache\<lparr>items := map (rehydrate ?e) ?its\<rparr>,
                   ?db1\<lparr>pbBodies := (\<lambda>k. if k \<in> fst ` set ?its then None else pbBodies ?db1 k)\<rparr>)"
  proof (cases "pendingBlockBody w0 = ?cache")
    case True
    have c0: "pendingBlockBody w0 = ?cache\<lparr>items := ?its @ []\<rparr>"
      using True by simp
    have d0: "distinct (map fst (?its @ []))" using di by simp
    show ?thesis
      unfolding c0 loadLoop_same [OF d0 h] by simp
  next
    case False
    with tgt have n: "pendingBlockBody w0 = lru_New (lruSize ?cache)"
      and l: "length ?its \<le> lruSize ?cache" by auto
    have c0: "pendingBlockBody w0 = ?cache\<lparr>items := []\<rparr>"
      using n by (simp add: lru_New_def)
    have d0: "distinct (map fst ([] @ ?its))" using di by simp
    have l0: "length ([] @ ?its) \<le> lruSize ?cache" using l by simp
    show ?thesis
      unfolding c0 loadLoop_fresh [OF d0 l0 h] by simp
  qed
  show ?thesis
    unfolding LoadPendingBlockBody_def
    by (simp add: db1 keys loop final)
qed

lemma map_of_rehydrate:
  "map_of (map (rehydrate e) its) k
     = (if k = e then map_option (\<lambda>_. Some emptyBody) (map_of its k) else map_of its k)"
  by (induction its) (auto simp: rehydrate_def)

text \<open>
  Claim C6, as the code has it. For a cache with distinct keys, \<^verbatim>\<open>StorePendingBlockBody\<close>
  followed by \<^verbatim>\<open>LoadPendingBlockBody\<close>, on the same worker or (for a cache within its size) on a
  worker with a fresh cache of the same size and the same store, leaves the cache with the entries
  it had, in the same order, the entry under the empty-body hash holding the empty body; as a
  mapping, every key maps to what it mapped to, but the empty-body hash to the empty body. On
  disk no body is left under any key of the cache and the bodies under other keys are as they
  were (so none is left when there was none before); the keys index that
  \<^verbatim>\<open>StorePendingBlockBody\<close> wrote is still there.
\<close>

theorem C6_store_then_load:
  fixes w :: "('w, 'f) worker" and w0 :: "('w, 'f) worker"
  assumes "distinct (lru_Keys (pendingBlockBody w))"
    and "length (items (pendingBlockBody w)) \<le> lruSize (pendingBlockBody w)"
    and "pendingBlockBody w0 = lru_New (lruSize (pendingBlockBody w))"
  shows "pendingBlockBody (LoadPendingBlockBody c (StorePendingBlockBody c w))
           = (pendingBlockBody w)
               \<lparr>items := map (rehydrate (EmptyBodyHash c)) (items (pendingBlockBody w))\<rparr>
       \<and> pendingBlockBody (LoadPendingBlockBody c (w0\<lparr>workerDb := workerDb (StorePendingBlockBody c w)\<rparr>))
           = (pendingBlockBody w)
               \<lparr>items := map (rehydrate (EmptyBodyHash c)) (items (pendingBlockBody w))\<rparr>
       \<and> (\<forall>k. map_of (items (pendingBlockBody (LoadPendingBlockBody c (StorePendingBlockBody c w)))) k
              = (if k = EmptyBodyHash c
                 then map_option (\<lambda>_. Some emptyBody) (map_of (items (pendingBlockBody w)) k)
                 else map_of (items (pendingBlockBody w)) k))
       \<and> workerDb (LoadPendingBlockBody c (StorePendingBlockBody c w))
           = (workerDb w)
               \<lparr>pbBodyKeys := Some (lru_Keys (pendingBlockBody w)),
                pbBodies := (\<lambda>k. if k \<in> set (lru_Keys (pendingBlockBody w)) then None
                                  else pbBodies (workerDb w) k)\<rparr>
       \<and> workerDb (LoadPendingBlockBody c (w0\<lparr>workerDb := workerDb (StorePendingBlockBody c w)\<rparr>))
           = workerDb (LoadPendingBlockBody c (StorePendingBlockBody c w))
       \<and> (pbBodies (workerDb w) = (\<lambda>k. None) \<longrightarrow>
            pbBodies (workerDb (LoadPendingBlockBody c (StorePendingBlockBody c w))) = (\<lambda>k. None))"
proof -
  have same: "w\<lparr>workerDb := workerDb (StorePendingBlockBody c w)\<rparr> = StorePendingBlockBody c w"
    by (simp add: Store_db [OF assms(1)])
  have a: "LoadPendingBlockBody c (StorePendingBlockBody c w)
           = w\<lparr>pendingBlockBody := (pendingBlockBody w)
                   \<lparr>items := map (rehydrate (EmptyBodyHash c)) (items (pendingBlockBody w))\<rparr>,
                 workerDb := (workerDb w)
                   \<lparr>pbBodyKeys := Some (lru_Keys (pendingBlockBody w)),
                    pbBodies := (\<lambda>k. if k \<in> set (lru_Keys (pendingBlockBody w)) then None
                                      else pbBodies (workerDb w) k)\<rparr>\<rparr>"
    using Load_after_Store [OF assms(1), of w c] by (simp add: same)
  have b: "LoadPendingBlockBody c (w0\<lparr>workerDb := workerDb (StorePendingBlockBody c w)\<rparr>)
           = w0\<lparr>pendingBlockBody := (pendingBlockBody w)
                   \<lparr>items := map (rehydrate (EmptyBodyHash c)) (items (pendingBlockBody w))\<rparr>,
                 workerDb := (workerDb w)
                   \<lparr>pbBodyKeys := Some (lru_Keys (pendingBlockBody w)),
                    pbBodies := (\<lambda>k. if k \<in> set (lru_Keys (pendingBlockBody w)) then None
                                      else pbBodies (workerDb w) k)\<rparr>\<rparr>"
    using Load_after_Store [OF assms(1), of w0 c] assms(2,3) by simp
  show ?thesis
    unfolding a b by (simp add: map_of_rehydrate fun_eq_iff)
qed

text \<open>
  Claim C6 as stated fails: starting from an empty table, the table is not empty after
  \<^verbatim>\<open>StorePendingBlockBody\<close> and \<^verbatim>\<open>LoadPendingBlockBody\<close>; it holds the keys index.
\<close>

theorem C6_store_then_load_counterexample:
  "pbBodyKeys (workerDb sampleCacheWorker) = None
   \<and> pbBodyKeys (workerDb (LoadPendingBlockBody sampleCollab
                              (StorePendingBlockBody sampleCollab sampleCacheWorker)))
       = Some [0, 5]"
proof -
  have d: "distinct (lru_Keys (pendingBlockBody sampleCacheWorker))"
    by (simp add: sampleCacheWorker_def lru_Keys_def)
  have same: "sampleCacheWorker\<lparr>workerDb := workerDb (StorePendingBlockBody sampleCollab sampleCacheWorker)\<rparr>
                = StorePendingBlockBody sampleCollab sampleCacheWorker"
    by (simp add: Store_db [OF d])
  show ?thesis
    using Load_after_Store [OF d, of sampleCacheWorker sampleCollab]
    by (simp add: same) (simp add: sampleCacheWorker_def sampleWorker_def lru_Keys_def)
qed

theorem C6_store_then_load_witness:
  "distinct (lru_Keys (pendingBlockBody sampleCacheWorker))
   \<and> length (items (pendingBlockBody sampleCacheWorker)) \<le> lruSize (pendingBlockBody sampleCacheWorker)
   \<and> pendingBlockBody sampleWorker = lru_New (lruSize (pendingBlockBody sampleCacheWorker))
   \<and> items (pendingBlockBody (LoadPendingBlockBody sampleCollab
                (sampleWorker\<lparr>workerDb := workerDb (StorePendingBlockBody sampleCollab sampleCacheWorker)\<rparr>)))
       = [(0, Some emptyBody), (5, Some sampleBody)]
   \<and> pbBodies (workerDb (LoadPendingBlockBody sampleCollab
                (StorePendingBlockBody sampleCollab sampleCacheWorker))) 5 = None"
proof -
  have h: "distinct (lru_Keys (pendingBlockBody sampleCacheWorker))"
    "length (items (pendingBlockBody sampleCacheWorker)) \<le> lruSize (pendingBlockBody sampleCacheWorker)"
    "pendingBlockBody sampleWorker = lru_New (lruSize (pendingBlockBody sampleCacheWorker))"
    by (simp_all add: sampleCacheWorker_def sampleWorker_def lru_Keys_def lru_New_def
        pendingBlockBodyLimit_def)
  have v: "items (pendingBlockBody sampleCacheWorker) = [(0, Some sampleBody), (5, Some sampleBody)]"
    "EmptyBodyHash sampleCollab = 0" "lru_Keys (pendingBlockBody sampleCacheWorker) = [0, 5]"
    by (simp_all add: sampleCacheWorker_def sampleCollab_def lru_Keys_def)
  show ?thesis
    using C6_store_then_load [OF h, of sampleCollab] h
    by (simp add: v rehydrate_def)
qed

end
